theory Spec2Isabelle
  imports Complex_Main
begin

section \<open>Python values, dictionaries and exceptions\<close>

text \<open>
  The simulator passes Python dictionaries with string keys around. Their values are
  numbers (\<open>int\<close> and \<open>float\<close>), strings, \<open>None\<close> and nested dictionaries (the position
  reading and the rows of the KG tables). A Python number is modelled by the rational it
  denotes: every finite \<open>int\<close> and \<open>float\<close> is a rational, the comparison of an \<open>int\<close>
  with a \<open>float\<close> is the comparison of these rationals, and the threshold literals of
  the classifier (75, 90, 350, 400, 1.5, 3.5, 5.0, 10.0, 50.0, 30.0) are binary
  fractions. The values \<open>nan\<close> and \<open>inf\<close> are not numbers of the model.

  Float arithmetic converts an \<open>int\<close> operand to a double first, which raises
  \<open>OverflowError\<close> when the \<open>int\<close> does not round to a finite double, that is from
  \<open>2^1024 - 2^970\<close> on in absolute value; this is modelled. The rounding of the result
  of a float operation to the nearest double is not modelled: the model computes the exact
  result. In the classifier the only float operation is the subtraction of the expected
  position, whose result is compared with the tolerances 5.0 and 10.0. For doubles and
  for integers in range the exact and the rounded difference compare alike with both
  tolerances, except for a \<open>Z\<close> in \<open>[-2^-50, 0)\<close>: there the rounded deviation is 10.0
  and the exact one is above 10. The properties of the classifier that depend on the
  size of the deviation are stated for positions outside this interval.
\<close>

datatype val =
    VNone
  | Num rat
  | Str string
  | Dict "string \<Rightarrow> val option"

type_synonym dict = "string \<Rightarrow> val option"

datatype error =
    KeyError string
  | TypeError
  | IndexError
  | ValueError
  | NotImplementedError
  | AttributeError
  | OverflowError

text \<open>Sequencing of computations that may raise: the first exception wins.\<close>

fun bind :: "error + 'a \<Rightarrow> ('a \<Rightarrow> error + 'b) \<Rightarrow> error + 'b" where
  "bind (Inl e) f = Inl e"
| "bind (Inr x) f = f x"

text \<open>\<open>d[k]\<close> on a dictionary raises \<open>KeyError\<close> on a missing key; \<open>d.get(k)\<close> gives \<open>None\<close>.\<close>

definition getitem :: "dict \<Rightarrow> string \<Rightarrow> error + val" where
  "getitem d k = (case d k of None \<Rightarrow> Inl (KeyError k) | Some v \<Rightarrow> Inr v)"

definition get :: "dict \<Rightarrow> string \<Rightarrow> val" where
  "get d k = (case d k of None \<Rightarrow> VNone | Some v \<Rightarrow> v)"

text \<open>\<open>v[k]\<close> on an arbitrary value with a string key: only a dictionary can be subscripted so.\<close>

fun subscript :: "val \<Rightarrow> string \<Rightarrow> error + val" where
  "subscript (Dict d) k = getitem d k"
| "subscript _ k = Inl TypeError"

text \<open>An operand of an ordering comparison or of a subtraction with a number must be a number.\<close>

fun as_num :: "val \<Rightarrow> error + rat" where
  "as_num (Num x) = Inr x"
| "as_num _ = Inl TypeError"

text \<open>Truth value of an object in a condition.\<close>

fun truthy :: "val \<Rightarrow> bool" where
  "truthy VNone = False"
| "truthy (Num x) = (x \<noteq> 0)"
| "truthy (Str s) = (s \<noteq> [])"
| "truthy (Dict d) = (d \<noteq> Map.empty)"

text \<open>\<open>v in [1, 2, 3]\<close>: equality with one of the numbers; a non-number equals none of them.\<close>

fun in_nums :: "val \<Rightarrow> rat list \<Rightarrow> bool" where
  "in_nums (Num x) ns = (x \<in> set ns)"
| "in_nums _ ns = False"

text \<open>
  A number as an operand of float arithmetic: an \<open>int\<close> that rounds beyond the largest
  double raises \<open>OverflowError\<close>; a float is in range already.
\<close>

definition DBL_OVERFLOW :: rat where
  "DBL_OVERFLOW = 2 ^ 1024 - 2 ^ 970"

definition as_float :: "rat \<Rightarrow> error + rat" where
  "as_float x = (if \<bar>x\<bar> \<ge> DBL_OVERFLOW then Inl OverflowError else Inr x)"

text \<open>\<open>max\<close> of a sequence; the empty sequence raises \<open>ValueError\<close>.\<close>

fun max_seq :: "rat list \<Rightarrow> error + rat" where
  "max_seq [] = Inl ValueError"
| "max_seq (x # xs) = Inr (fold max xs x)"

section \<open>The classifier\<close>

definition EXPECTED_POSITION :: "string \<Rightarrow> rat option" where
  "EXPECTED_POSITION = [''X'' \<mapsto> 50, ''Y'' \<mapsto> 30, ''Z'' \<mapsto> 10]"

definition TOLERANCE_WARNING :: rat where
  "TOLERANCE_WARNING = 5"

definition TOLERANCE_CRITICAL :: rat where
  "TOLERANCE_CRITICAL = 10"

text \<open>\<open>abs(pos[axis] - EXPECTED_POSITION[axis])\<close> for one axis.\<close>

definition axis_dev :: "val \<Rightarrow> string \<Rightarrow> error + rat" where
  "axis_dev pos axis =
     bind (subscript pos axis) (\<lambda>v.
     case EXPECTED_POSITION axis of
       None \<Rightarrow> Inl (KeyError axis)
     | Some e \<Rightarrow> bind (bind (as_num v) as_float) (\<lambda>x. Inr \<bar>x - e\<bar>))"

text \<open>The generator \<open>abs(...) for axis in [...]\<close>, consumed from left to right.\<close>

fun axis_devs :: "val \<Rightarrow> string list \<Rightarrow> error + rat list" where
  "axis_devs pos [] = Inr []"
| "axis_devs pos (a # as) =
     bind (axis_dev pos a) (\<lambda>d. bind (axis_devs pos as) (\<lambda>ds. Inr (d # ds)))"

definition max_dev :: "val \<Rightarrow> error + rat" where
  "max_dev pos = bind (axis_devs pos [''X'', ''Y'', ''Z'']) max_seq"

definition classify_state :: "dict \<Rightarrow> dict \<Rightarrow> error + string" where
  "classify_state sensors machine =
     bind (bind (getitem sensors ''spindle_temp'') as_num) (\<lambda>t.
     if t > 75 \<and> t \<le> 90 then Inr ''Maintenance_KG:Possible_Overheating''
     else if t > 90 then
       bind (bind (getitem sensors ''power_draw'') as_num) (\<lambda>p.
         if p > 350 \<and> p < 400 then Inr ''Cyberattack_KG:Possible_Glitch/Firmware''
         else if p \<ge> 400 then Inr ''Cyberattack_KG:Likely_Glitch/Firmware''
         else Inr ''Maintenance_KG:Spindle_Overheat'')
     else
       bind (bind (getitem sensors ''vibration'') as_num) (\<lambda>v.
       if v > 3/2 \<and> v \<le> 7/2 then Inr ''Cyberattack_KG:Possible_Vibration_Sabotage''
       else if v > 7/2 then Inr ''Cyberattack_KG:Likely_Vibration_Sabotage''
       else
         bind (bind (getitem sensors ''power_draw'') as_num) (\<lambda>p.
         if p \<ge> 350 \<and> p < 400 then Inr ''PowerDraw_KG:Possible_Elevated_Load''
         else if p \<ge> 400 then Inr ''PowerDraw_KG:High_Power_Consumption''
         else
           bind (getitem sensors ''position'') (\<lambda>pos.
           bind (max_dev pos) (\<lambda>md.
           if md > TOLERANCE_WARNING \<and> md \<le> TOLERANCE_CRITICAL then
             Inr ''Maintenance_KG:Minor_Position_Drift''
           else if md > TOLERANCE_CRITICAL then
             Inr ''Cyberattack_KG:Major_Position_Change''
           else if truthy (get machine ''tool_id'')
                   \<and> \<not> in_nums (get machine ''tool_id'') [1, 2, 3] then
             Inr ''Maintenance_KG:Tool_Change''
           else
             bind (getitem sensors ''inspection'') (\<lambda>insp.
             if insp = Str ''FAIL'' then Inr ''Normal_KG:Inspection_Fail''
             else Inr ''Normal_KG:Operation_Normal''))))))"

section \<open>The random source\<close>

text \<open>
  The generators draw from Python's \<open>random\<close> module. The source of randomness is an
  explicit argument: an infinite sequence of raw draws, of which each call consumes the
  first. \<open>random.choice\<close> reduces its draw to an index below the length of the sequence
  (an empty sequence raises \<open>IndexError\<close>); \<open>random.random()\<close> reduces it to a multiple
  of \<open>2^-53\<close> in \<open>[0, 1)\<close>, and \<open>random.uniform(a, b)\<close> is \<open>a + (b - a) * random()\<close>.
  The product and the sum are exact in the model and rounded to doubles in the code, so
  that a generated reading can differ from the code's in its last decimal at the same
  draw. The properties below hold for every reading, whatever its value.
\<close>

type_synonym rng = "nat \<Rightarrow> nat"

definition draw :: "rng \<Rightarrow> nat \<times> rng" where
  "draw g = (g 0, \<lambda>n. g (Suc n))"

definition choice :: "'a list \<Rightarrow> rng \<Rightarrow> error + ('a \<times> rng)" where
  "choice xs g =
     (if xs = [] then Inl IndexError
      else case draw g of (r, g') \<Rightarrow> Inr (xs ! (r mod length xs), g'))"

definition uniform :: "rat \<Rightarrow> rat \<Rightarrow> rng \<Rightarrow> rat \<times> rng" where
  "uniform a b g =
     (case draw g of (r, g') \<Rightarrow> (a + (b - a) * (of_nat (r mod 2 ^ 53) / 2 ^ 53), g'))"

text \<open>\<open>round(x, ndigits)\<close>: to the nearest multiple of \<open>10^-ndigits\<close>, ties to even.\<close>

definition round_half_even :: "rat \<Rightarrow> int" where
  "round_half_even y =
     (let f = \<lfloor>y\<rfloor>; d = y - of_int f
      in if d < 1/2 then f else if d > 1/2 then f + 1 else if even f then f else f + 1)"

definition py_round :: "rat \<Rightarrow> nat \<Rightarrow> rat" where
  "py_round x ndigits = of_int (round_half_even (x * 10 ^ ndigits)) / 10 ^ ndigits"

section \<open>Sensors\<close>

datatype sensor =
    Sensor string
  | SpindleTempSensor string
  | VibrationSensor string
  | PowerDrawSensor string
  | PositionEncoder string
  | VisionQCSensor string

fun name :: "sensor \<Rightarrow> string" where
  "name (Sensor n) = n"
| "name (SpindleTempSensor n) = n"
| "name (VibrationSensor n) = n"
| "name (PowerDrawSensor n) = n"
| "name (PositionEncoder n) = n"
| "name (VisionQCSensor n) = n"

fun read :: "sensor \<Rightarrow> rng \<Rightarrow> error + (val \<times> rng)" where
  "read (Sensor n) g = Inl NotImplementedError"
| "read (SpindleTempSensor n) g =
     (case uniform 45 100 g of (x, g') \<Rightarrow> Inr (Num (py_round x 2), g'))"
| "read (VibrationSensor n) g =
     (case uniform (2/10) 4 g of (x, g') \<Rightarrow> Inr (Num (py_round x 2), g'))"
| "read (PowerDrawSensor n) g =
     (case uniform 200 450 g of (x, g') \<Rightarrow> Inr (Num (py_round x 1), g'))"
| "read (PositionEncoder n) g =
     (case uniform 0 100 g of (x, g1) \<Rightarrow>
      case uniform 0 100 g1 of (y, g2) \<Rightarrow>
      case uniform 0 50 g2 of (z, g3) \<Rightarrow>
        Inr (Dict [''X'' \<mapsto> Num (py_round x 1), ''Y'' \<mapsto> Num (py_round y 1),
                   ''Z'' \<mapsto> Num (py_round z 1)], g3))"
| "read (VisionQCSensor n) g =
     bind (choice [''PASS'', ''FAIL''] g) (\<lambda>(s, g'). Inr (Str s, g'))"

section \<open>The automatic tool changer\<close>

record atc =
  tools :: "int list"
  current_tool :: int

text \<open>\<open>AutomaticToolChanger.__init__\<close>: \<open>tools[0]\<close> raises on an empty list.\<close>

definition atc_init :: "int list \<Rightarrow> error + atc" where
  "atc_init ts =
     (case ts of [] \<Rightarrow> Inl IndexError | t # _ \<Rightarrow> Inr \<lparr>tools = ts, current_tool = t\<rparr>)"

text \<open>Python's \<open>%\<close> with a positive divisor is the floored remainder, as \<open>mod\<close> on \<open>int\<close>.\<close>

definition check_and_change_tool :: "atc \<Rightarrow> int \<Rightarrow> rng \<Rightarrow> error + (int \<times> atc \<times> rng)" where
  "check_and_change_tool a cycle_id g =
     (if cycle_id mod 10 = 0 then
        bind (choice (tools a) g) (\<lambda>(t, g'). Inr (t, a\<lparr>current_tool := t\<rparr>, g'))
      else Inr (current_tool a, a, g))"

text \<open>A run of calls on one tool changer, each with its cycle id.\<close>

fun atc_calls :: "atc \<Rightarrow> int list \<Rightarrow> rng \<Rightarrow> error + (atc \<times> rng)" where
  "atc_calls a [] g = Inr (a, g)"
| "atc_calls a (c # cs) g =
     bind (check_and_change_tool a c g) (\<lambda>(t, a', g'). atc_calls a' cs g')"

section \<open>Machines\<close>

text \<open>The decimal text of an integer, as an f-string prints it.\<close>

fun digits :: "nat \<Rightarrow> string" where
  "digits n =
     (if n < 10 then [''0123456789'' ! n]
      else digits (n div 10) @ [''0123456789'' ! (n mod 10)])"

definition str_int :: "int \<Rightarrow> string" where
  "str_int i = (if i < 0 then ''-'' @ digits (nat (- i)) else digits (nat i))"

text \<open>
  A machine is one of the four variants or the base class, whose operation raises.
  The milling machine holds its tool changer.
\<close>

datatype machine =
    Machine string
  | CNCMill string atc
  | RoboticArm string
  | ConveyorBelt string
  | InspectionSystem string

fun perform_operation :: "machine \<Rightarrow> int \<Rightarrow> rng \<Rightarrow> error + (dict \<times> machine \<times> rng)" where
  "perform_operation (Machine n) cycle_id g = Inl NotImplementedError"
| "perform_operation (CNCMill n a) cycle_id g =
     bind (choice [''cutting'', ''drilling'', ''idle''] g) (\<lambda>(op, g1).
     bind (check_and_change_tool a cycle_id g1) (\<lambda>(tool, a', g2).
       Inr ([''operation'' \<mapsto> Str op, ''tool_id'' \<mapsto> Num (of_int tool)], CNCMill n a', g2)))"
| "perform_operation (RoboticArm n) cycle_id g =
     bind (choice [''load_material'', ''unload_part'', ''assemble_component'', ''idle''] g)
       (\<lambda>(task, g1). Inr ([''robotic_arm_task'' \<mapsto> Str task], RoboticArm n, g1))"
| "perform_operation (ConveyorBelt n) cycle_id g =
     bind (choice [''Station A'', ''Station B'', ''Inspection'', ''Exit''] g) (\<lambda>(position, g1).
       let part_id = ''PART-'' @ str_int (1000 + cycle_id)
       in Inr ([''conveyor_position'' \<mapsto> Str position, ''part_id'' \<mapsto> Str part_id],
               ConveyorBelt n, g1))"
| "perform_operation (InspectionSystem n) cycle_id g =
     bind (choice [''PASS'', ''FAIL''] g) (\<lambda>(decision, g1).
       case uniform (7/10) 1 g1 of (x, g2) \<Rightarrow>
         let confidence = py_round x 2
         in Inr ([''inspection_result'' \<mapsto> Str decision,
                  ''inspection_confidence'' \<mapsto> Num confidence],
                 InspectionSystem n, g2))"

section \<open>The message\<close>

text \<open>
  \<open>SimulationMessage\<close>; the capture time \<open>time.time()\<close> is an argument of the
  constructor's model. \<open>to_json\<close> builds the payload dictionary and serialises it; the
  model keeps the dictionary that the JSON text denotes, which is what \<open>json.loads\<close>
  gives back in \<open>send_to_KG\<close>. \<open>{a: .., b: .., **m, **s}\<close> writes the entries from
  left to right, a later entry replacing an earlier one of the same key.
\<close>

record message =
  cycle_id :: int
  timestamp :: rat
  machine_data :: dict
  sensor_readings :: dict

definition to_json :: "message \<Rightarrow> dict" where
  "to_json self =
     [''cycle_id'' \<mapsto> Num (of_int (cycle_id self)), ''timestamp'' \<mapsto> Num (timestamp self)]
       ++ machine_data self ++ sensor_readings self"

section \<open>The KG tables and the output record\<close>

text \<open>
  \<open>load_kg_csv\<close> reads a CSV file through \<open>csv.DictReader\<close>: a file that does not exist
  is \<open>None\<close>, an existing one is the list of its rows, each a dictionary from column
  name to cell (a cell missing from a short row is \<open>None\<close>). Only the missing file is
  caught. A string is a sequence of code points below 256; \<open>strip\<close> removes the
  white space at both ends, which among these code points is the ASCII white space,
  U+0085 and U+00A0.
\<close>

definition is_space :: "char \<Rightarrow> bool" where
  "is_space c \<longleftrightarrow> c \<in> set [CHR 0x20, CHR 0x09, CHR 0x0A, CHR 0x0B, CHR 0x0C, CHR 0x0D,
                             CHR 0x1C, CHR 0x1D, CHR 0x1E, CHR 0x1F, CHR 0x85, CHR 0xA0]"

fun strip :: "val \<Rightarrow> error + string" where
  "strip (Str s) = Inr (rev (dropWhile is_space (rev (dropWhile is_space s))))"
| "strip _ = Inl AttributeError"

fun load_rows :: "dict list \<Rightarrow> dict \<Rightarrow> error + dict" where
  "load_rows [] mapping = Inr mapping"
| "load_rows (row # rows) mapping =
     bind (bind (getitem row ''Source entity'') strip) (\<lambda>source.
     bind (bind (getitem row ''relationship'') strip) (\<lambda>rel.
     bind (bind (getitem row ''target entity'') strip) (\<lambda>tgt.
       load_rows rows
         (mapping(source \<mapsto> Dict [''relationship'' \<mapsto> Str rel, ''target_entity'' \<mapsto> Str tgt])))))"

definition load_kg_csv :: "dict list option \<Rightarrow> error + dict" where
  "load_kg_csv file = (case file of None \<Rightarrow> Inr Map.empty | Some rows \<Rightarrow> load_rows rows Map.empty)"

text \<open>The module's three tables, loaded from \<open>maintenance-kg.csv\<close>, \<open>normal-kg.csv\<close> and
  \<open>cyberattack-kg.csv\<close>.\<close>

record kg_tables =
  maintenance_map :: dict
  normal_map :: dict
  cyberattack_map :: dict

definition load_tables :: "(string \<Rightarrow> dict list option) \<Rightarrow> error + kg_tables" where
  "load_tables files =
     bind (load_kg_csv (files ''maintenance-kg.csv'')) (\<lambda>m.
     bind (load_kg_csv (files ''normal-kg.csv'')) (\<lambda>n.
     bind (load_kg_csv (files ''cyberattack-kg.csv'')) (\<lambda>c.
       Inr \<lparr>maintenance_map = m, normal_map = n, cyberattack_map = c\<rparr>)))"

text \<open>\<open>sub in s\<close> on strings: \<open>sub\<close> occurs in \<open>s\<close> as a contiguous piece.\<close>

fun starts_with :: "string \<Rightarrow> string \<Rightarrow> bool" where
  "starts_with [] s = True"
| "starts_with (c # cs) [] = False"
| "starts_with (c # cs) (d # ds) = (c = d \<and> starts_with cs ds)"

fun contains :: "string \<Rightarrow> string \<Rightarrow> bool" where
  "contains sub [] = (sub = [])"
| "contains sub (d # ds) = (starts_with sub (d # ds) \<or> contains sub ds)"

text \<open>\<open>send_to_KG\<close>; the result is the record that is printed.\<close>

definition send_to_KG :: "kg_tables \<Rightarrow> dict \<Rightarrow> string \<Rightarrow> dict" where
  "send_to_KG tabs payload classification =
     (let rec = payload(''kg_node'' \<mapsto> Str classification);
          triple =
            (if contains ''Maintenance_KG'' classification then
               get (maintenance_map tabs) classification
             else if contains ''Normal_KG'' classification then
               get (normal_map tabs) classification
             else if contains ''Cyberattack_KG'' classification then
               get (cyberattack_map tabs) classification
             else VNone)
      in rec(''kg_triple'' \<mapsto> triple))"

section \<open>The engine\<close>

record factory =
  machines :: "machine list"
  sensors :: "sensor list"

definition read_real_data :: dict where
  "read_real_data =
     [''operation'' \<mapsto> Str ''cutting'',
      ''tool_id'' \<mapsto> Num 2,
      ''spindle_temp'' \<mapsto> Num (825/10),
      ''vibration'' \<mapsto> Num (11/10),
      ''power_draw'' \<mapsto> Num (3102/10),
      ''position'' \<mapsto> Dict [''X'' \<mapsto> Num 50, ''Y'' \<mapsto> Num 30, ''Z'' \<mapsto> Num 10],
      ''inspection'' \<mapsto> Str ''PASS'']"

text \<open>\<open>os.getenv("MODE", "SIM")\<close>: the argument is the value of the variable, if set.\<close>

definition get_data_source :: "string option \<Rightarrow> val" where
  "get_data_source env =
     (let mode = (case env of None \<Rightarrow> ''SIM'' | Some s \<Rightarrow> s)
      in if mode = ''REAL'' then Dict read_real_data else VNone)"

text \<open>The loop over the machines, \<open>machine_data.update(...)\<close> for each.\<close>

fun run_machines :: "machine list \<Rightarrow> int \<Rightarrow> dict \<Rightarrow> rng \<Rightarrow> error + (dict \<times> machine list \<times> rng)" where
  "run_machines [] cid md g = Inr (md, [], g)"
| "run_machines (m # ms) cid md g =
     bind (perform_operation m cid g) (\<lambda>(r, m', g1).
     bind (run_machines ms cid (md ++ r) g1) (\<lambda>(md', ms', g2).
       Inr (md', m' # ms', g2)))"

text \<open>The loop over the sensors, \<open>sensor_readings[s.name] = s.read()\<close> for each.\<close>

fun read_sensors :: "sensor list \<Rightarrow> dict \<Rightarrow> rng \<Rightarrow> error + (dict \<times> rng)" where
  "read_sensors [] sr g = Inr (sr, g)"
| "read_sensors (s # ss) sr g =
     bind (read s g) (\<lambda>(v, g1). read_sensors ss (sr(name s \<mapsto> v)) g1)"

text \<open>
  One cycle. The arguments beyond the factory and the cycle id are what the cycle reads
  from its surroundings: the KG tables of the module, the \<open>MODE\<close> variable, the clock and
  the random source. The result holds the message, the label, the printed record, the
  factory with its updated tool changer and the rest of the random source.
\<close>

record cycle_result =
  msg :: message
  classification :: string
  printed :: dict
  factory_after :: factory
  rng_after :: rng

definition run_cycle ::
  "factory \<Rightarrow> kg_tables \<Rightarrow> string option \<Rightarrow> rat \<Rightarrow> int \<Rightarrow> rng \<Rightarrow> error + cycle_result" where
  "run_cycle self tabs env now cid g =
     bind (run_machines (machines self) cid Map.empty g) (\<lambda>(md, ms', g1).
     let real = get_data_source env in
     bind (if truthy real then
             bind (subscript real ''spindle_temp'') (\<lambda>st.
             bind (subscript real ''vibration'') (\<lambda>vb.
             bind (subscript real ''power_draw'') (\<lambda>pd.
             bind (subscript real ''position'') (\<lambda>ps.
             bind (subscript real ''inspection'') (\<lambda>ins.
               Inr ([''spindle_temp'' \<mapsto> st, ''vibration'' \<mapsto> vb, ''power_draw'' \<mapsto> pd,
                     ''position'' \<mapsto> ps, ''inspection'' \<mapsto> ins], g1))))))
           else read_sensors (sensors self) Map.empty g1) (\<lambda>(sr, g2).
     let m = \<lparr>cycle_id = cid, timestamp = now, machine_data = md, sensor_readings = sr\<rparr> in
     bind (classify_state sr md) (\<lambda>label.
       Inr \<lparr>msg = m, classification = label,
            printed = send_to_KG tabs (to_json m) label,
            factory_after = self\<lparr>machines := ms'\<rparr>, rng_after = g2\<rparr>)))"

section \<open>Well-formed inputs and the cascade as a list of rules\<close>

text \<open>
  A well-formed sensors mapping has numbers under \<open>spindle_temp\<close>, \<open>vibration\<close> and
  \<open>power_draw\<close>, a dictionary with numbers under \<open>X\<close>, \<open>Y\<close> and \<open>Z\<close> under \<open>position\<close>,
  and a string under \<open>inspection\<close>. The machine mapping is arbitrary.
\<close>

fun is_num :: "val option \<Rightarrow> bool" where
  "is_num (Some (Num x)) = True"
| "is_num _ = False"

fun is_str :: "val option \<Rightarrow> bool" where
  "is_str (Some (Str s)) = True"
| "is_str _ = False"

fun is_position :: "val option \<Rightarrow> bool" where
  "is_position (Some (Dict p)) = (is_num (p ''X'') \<and> is_num (p ''Y'') \<and> is_num (p ''Z''))"
| "is_position _ = False"

definition well_formed :: "dict \<Rightarrow> bool" where
  "well_formed s \<longleftrightarrow>
     is_num (s ''spindle_temp'') \<and> is_num (s ''vibration'') \<and> is_num (s ''power_draw'')
     \<and> is_position (s ''position'') \<and> is_str (s ''inspection'')"

text \<open>The readings of a well-formed mapping.\<close>

fun num_of :: "val option \<Rightarrow> rat" where
  "num_of (Some (Num x)) = x"
| "num_of _ = 0"

definition spindle_temp :: "dict \<Rightarrow> rat" where
  "spindle_temp s = num_of (s ''spindle_temp'')"

definition vibration :: "dict \<Rightarrow> rat" where
  "vibration s = num_of (s ''vibration'')"

definition power_draw :: "dict \<Rightarrow> rat" where
  "power_draw s = num_of (s ''power_draw'')"

text \<open>The largest absolute deviation of the position from (50, 30, 10) over the axes.\<close>

fun drift_of :: "val option \<Rightarrow> rat" where
  "drift_of (Some (Dict p)) =
     max (max \<bar>num_of (p ''X'') - 50\<bar> \<bar>num_of (p ''Y'') - 30\<bar>) \<bar>num_of (p ''Z'') - 10\<bar>"
| "drift_of _ = 0"

definition drift :: "dict \<Rightarrow> rat" where
  "drift s = drift_of (s ''position'')"

text \<open>
  The positions on which the subtraction of the expected position raises nothing: every
  coordinate is below the overflow bound in absolute value. Every float is.
\<close>

fun coords_in_range :: "val option \<Rightarrow> bool" where
  "coords_in_range (Some (Dict p)) =
     (\<bar>num_of (p ''X'')\<bar> < DBL_OVERFLOW \<and> \<bar>num_of (p ''Y'')\<bar> < DBL_OVERFLOW
      \<and> \<bar>num_of (p ''Z'')\<bar> < DBL_OVERFLOW)"
| "coords_in_range _ = False"

definition position_in_range :: "dict \<Rightarrow> bool" where
  "position_in_range s = coords_in_range (s ''position'')"

text \<open>
  The positions on which, besides, the rounded deviation compares with the tolerances as
  the exact one does: \<open>Z\<close> is not in \<open>[-2^-50, 0)\<close>.
\<close>

fun z_exact :: "val option \<Rightarrow> bool" where
  "z_exact (Some (Dict p)) = (num_of (p ''Z'') < - (1 / 2 ^ 50) \<or> 0 \<le> num_of (p ''Z''))"
| "z_exact _ = False"

definition position_exact :: "dict \<Rightarrow> bool" where
  "position_exact s \<longleftrightarrow> position_in_range s \<and> z_exact (s ''position'')"

text \<open>
  A rule is a predicate on the input with the label it gives. The ten rules in their
  order; the label of rule 2 depends on the power draw and that of rule 7 on the size
  of the drift. Rule 8 is a parameter: the classifier tests the truth value of
  \<open>machine.get("tool_id")\<close>, the documentation says that the key is present.
\<close>

type_synonym rule = "(dict \<times> dict \<Rightarrow> bool) \<times> (dict \<times> dict \<Rightarrow> string)"

definition rules :: "(dict \<Rightarrow> bool) \<Rightarrow> rule list" where
  "rules tool_rule =
     [(\<lambda>(s, m). 75 < spindle_temp s \<and> spindle_temp s \<le> 90, \<lambda>_. ''Maintenance_KG:Possible_Overheating''),
      (\<lambda>(s, m). spindle_temp s > 90,
       \<lambda>(s, m). if 350 < power_draw s \<and> power_draw s < 400 then ''Cyberattack_KG:Possible_Glitch/Firmware''
                else if power_draw s \<ge> 400 then ''Cyberattack_KG:Likely_Glitch/Firmware''
                else ''Maintenance_KG:Spindle_Overheat''),
      (\<lambda>(s, m). 3/2 < vibration s \<and> vibration s \<le> 7/2, \<lambda>_. ''Cyberattack_KG:Possible_Vibration_Sabotage''),
      (\<lambda>(s, m). vibration s > 7/2, \<lambda>_. ''Cyberattack_KG:Likely_Vibration_Sabotage''),
      (\<lambda>(s, m). 350 \<le> power_draw s \<and> power_draw s < 400, \<lambda>_. ''PowerDraw_KG:Possible_Elevated_Load''),
      (\<lambda>(s, m). power_draw s \<ge> 400, \<lambda>_. ''PowerDraw_KG:High_Power_Consumption''),
      (\<lambda>(s, m). drift s > 5,
       \<lambda>(s, m). if drift s \<le> 10 then ''Maintenance_KG:Minor_Position_Drift''
                else ''Cyberattack_KG:Major_Position_Change''),
      (\<lambda>(s, m). tool_rule m, \<lambda>_. ''Maintenance_KG:Tool_Change''),
      (\<lambda>(s, m). s ''inspection'' = Some (Str ''FAIL''), \<lambda>_. ''Normal_KG:Inspection_Fail''),
      (\<lambda>_. True, \<lambda>_. ''Normal_KG:Operation_Normal'')]"

text \<open>Rule 8 as the classifier tests it.\<close>

definition tool_truthy_not_123 :: "dict \<Rightarrow> bool" where
  "tool_truthy_not_123 m \<longleftrightarrow>
     truthy (get m ''tool_id'') \<and> \<not> in_nums (get m ''tool_id'') [1, 2, 3]"

text \<open>Rule 8 in the documentation's words: \<open>tool_id\<close> is present and not in {1, 2, 3}.\<close>

definition tool_present_not_123 :: "dict \<Rightarrow> bool" where
  "tool_present_not_123 m \<longleftrightarrow>
     (case m ''tool_id'' of None \<Rightarrow> False | Some v \<Rightarrow> \<not> in_nums v [1, 2, 3])"

definition cascade :: "rule list" where
  "cascade = rules tool_truthy_not_123"

definition documented_cascade :: "rule list" where
  "documented_cascade = rules tool_present_not_123"

text \<open>The label of the first rule of a list whose predicate holds.\<close>

fun first_match :: "rule list \<Rightarrow> dict \<times> dict \<Rightarrow> string option" where
  "first_match [] x = None"
| "first_match ((p, l) # rs) x = (if p x then Some (l x) else first_match rs x)"

text \<open>The thirteen labels that occur in the cascade.\<close>

definition labels :: "string list" where
  "labels =
     [''Maintenance_KG:Possible_Overheating'',
      ''Cyberattack_KG:Possible_Glitch/Firmware'',
      ''Cyberattack_KG:Likely_Glitch/Firmware'',
      ''Maintenance_KG:Spindle_Overheat'',
      ''Cyberattack_KG:Possible_Vibration_Sabotage'',
      ''Cyberattack_KG:Likely_Vibration_Sabotage'',
      ''PowerDraw_KG:Possible_Elevated_Load'',
      ''PowerDraw_KG:High_Power_Consumption'',
      ''Maintenance_KG:Minor_Position_Drift'',
      ''Cyberattack_KG:Major_Position_Change'',
      ''Maintenance_KG:Tool_Change'',
      ''Normal_KG:Inspection_Fail'',
      ''Normal_KG:Operation_Normal'']"

text \<open>A sensors mapping from its five readings, and a machine mapping with a tool id.\<close>

definition readings :: "rat \<Rightarrow> rat \<Rightarrow> rat \<Rightarrow> rat \<times> rat \<times> rat \<Rightarrow> string \<Rightarrow> dict" where
  "readings t v p pos insp =
     (case pos of (x, y, z) \<Rightarrow>
       [''spindle_temp'' \<mapsto> Num t, ''vibration'' \<mapsto> Num v, ''power_draw'' \<mapsto> Num p,
        ''position'' \<mapsto> Dict [''X'' \<mapsto> Num x, ''Y'' \<mapsto> Num y, ''Z'' \<mapsto> Num z],
        ''inspection'' \<mapsto> Str insp])"

definition with_tool :: "rat \<Rightarrow> dict" where
  "with_tool n = [''operation'' \<mapsto> Str ''cutting'', ''tool_id'' \<mapsto> Num n]"

text \<open>An input on which every reading is nominal, and one input for each label.\<close>

definition nominal :: dict where
  "nominal = readings 60 (1/2) 250 (50, 30, 10) ''PASS''"

definition samples :: "(dict \<times> dict) list" where
  "samples =
     [(readings 80 1 300 (50, 30, 10) ''PASS'', with_tool 1),
      (readings 95 1 360 (50, 30, 10) ''PASS'', with_tool 1),
      (readings 95 1 410 (50, 30, 10) ''PASS'', with_tool 1),
      (readings 95 1 300 (50, 30, 10) ''PASS'', with_tool 1),
      (readings 60 2 300 (50, 30, 10) ''PASS'', with_tool 1),
      (readings 60 4 300 (50, 30, 10) ''PASS'', with_tool 1),
      (readings 60 1 360 (50, 30, 10) ''PASS'', with_tool 1),
      (readings 60 1 410 (50, 30, 10) ''PASS'', with_tool 1),
      (readings 60 1 300 (57, 30, 10) ''PASS'', with_tool 1),
      (readings 60 1 300 (61, 30, 10) ''PASS'', with_tool 1),
      (readings 60 1 300 (50, 30, 10) ''PASS'', with_tool 4),
      (readings 60 1 300 (50, 30, 10) ''FAIL'', with_tool 1),
      (readings 60 1 300 (50, 30, 10) ''PASS'', with_tool 1)]"

section \<open>The default configuration and the reference data of the properties\<close>

text \<open>The four machines of the main program, around a tool changer.\<close>

definition default_machines :: "atc \<Rightarrow> machine list" where
  "default_machines a =
     [CNCMill ''CNC_Mill_1'' a, RoboticArm ''Robotic_Arm_1'', ConveyorBelt ''Conveyor_1'',
      InspectionSystem ''Inspection_Station'']"

text \<open>The field names that the machine variants write.\<close>

definition machine_fields :: "string set" where
  "machine_fields =
     {''operation'', ''tool_id'', ''robotic_arm_task'', ''conveyor_position'', ''part_id'',
      ''inspection_result'', ''inspection_confidence''}"

text \<open>The substitute reading bundle of the real-data mode, as the documentation gives it.\<close>

definition substitute_bundle :: dict where
  "substitute_bundle =
     [''spindle_temp'' \<mapsto> Num (825/10), ''vibration'' \<mapsto> Num (11/10),
      ''power_draw'' \<mapsto> Num (3102/10),
      ''position'' \<mapsto> Dict [''X'' \<mapsto> Num 50, ''Y'' \<mapsto> Num 30, ''Z'' \<mapsto> Num 10],
      ''inspection'' \<mapsto> Str ''PASS'']"

text \<open>
  The category of a label is its text before the colon. The module has a table for
  three of the four categories; no table is loaded for \<open>PowerDraw_KG\<close>.
\<close>

definition category :: "string \<Rightarrow> string" where
  "category l = takeWhile (\<lambda>c. c \<noteq> CHR '':'') l"

definition table_of :: "kg_tables \<Rightarrow> string \<Rightarrow> dict option" where
  "table_of tabs cat =
     (if cat = ''Maintenance_KG'' then Some (maintenance_map tabs)
      else if cat = ''Normal_KG'' then Some (normal_map tabs)
      else if cat = ''Cyberattack_KG'' then Some (cyberattack_map tabs)
      else None)"

text \<open>The tables when none of the three files exists.\<close>

definition empty_tables :: kg_tables where
  "empty_tables = \<lparr>maintenance_map = Map.empty, normal_map = Map.empty,
                    cyberattack_map = Map.empty\<rparr>"

text \<open>
  The triple in the documentation's words, one table for each category: the entry of
  the label in the table of its category, \<open>None\<close> when it has none.
\<close>

definition documented_triple :: "(string \<Rightarrow> dict) \<Rightarrow> string \<Rightarrow> val" where
  "documented_triple table l = get (table (category l)) l"

text \<open>
  Sample data: a row, the module's tables with one maintenance row, and a family of
  four tables that extends them with a table for \<open>PowerDraw_KG\<close>.
\<close>

definition sample_row :: val where
  "sample_row = Dict [''relationship'' \<mapsto> Str ''requires'', ''target_entity'' \<mapsto> Str ''Service'']"

definition sample_tables :: kg_tables where
  "sample_tables =
     \<lparr>maintenance_map = [''Maintenance_KG:Tool_Change'' \<mapsto> sample_row],
      normal_map = Map.empty, cyberattack_map = Map.empty\<rparr>"

definition four_tables :: "string \<Rightarrow> dict" where
  "four_tables cat =
     (case table_of sample_tables cat of
        Some t \<Rightarrow> t
      | None \<Rightarrow> if cat = ''PowerDraw_KG''
                then [''PowerDraw_KG:High_Power_Consumption'' \<mapsto> sample_row]
                else Map.empty)"

text \<open>A random source whose draws are all zero, and the main program's sensors.\<close>

definition no_entropy :: rng where
  "no_entropy n = 0"

definition default_sensors :: "sensor list" where
  "default_sensors =
     [SpindleTempSensor ''spindle_temp'', VibrationSensor ''vibration'',
      PowerDrawSensor ''power_draw'', PositionEncoder ''position'',
      VisionQCSensor ''inspection'']"

definition default_factory :: factory where
  "default_factory =
     \<lparr>machines = default_machines \<lparr>tools = [1, 2, 3, 4, 5], current_tool = 1\<rparr>,
      sensors = default_sensors\<rparr>"

text \<open>A factory with one machine and a sixth sensor named as a machine field.\<close>

definition colliding_factory :: factory where
  "colliding_factory =
     \<lparr>machines = [CNCMill ''CNC_Mill_1'' \<lparr>tools = [1, 2, 3, 4, 5], current_tool = 1\<rparr>],
      sensors = [SpindleTempSensor ''spindle_temp'', VibrationSensor ''vibration'',
                 PowerDrawSensor ''power_draw'', PositionEncoder ''position'',
                 VisionQCSensor ''inspection'', VisionQCSensor ''tool_id'']\<rparr>"

section \<open>Properties of the classifier\<close>

lemma well_formedE:
  assumes "well_formed s"
  obtains t v p pos x y z ins where
    "s ''spindle_temp'' = Some (Num t)" "s ''vibration'' = Some (Num v)"
    "s ''power_draw'' = Some (Num p)" "s ''position'' = Some (Dict pos)"
    "pos ''X'' = Some (Num x)" "pos ''Y'' = Some (Num y)" "pos ''Z'' = Some (Num z)"
    "s ''inspection'' = Some (Str ins)"
  using assms unfolding well_formed_def
  by (auto elim!: is_num.elims is_str.elims is_position.elims)

lemma small_in_range: "\<bar>x\<bar> \<le> 1000 \<Longrightarrow> \<bar>x\<bar> < DBL_OVERFLOW"
proof -
  have "(1000::rat) < DBL_OVERFLOW" by (simp add: DBL_OVERFLOW_def)
  then show "\<bar>x\<bar> \<le> 1000 \<Longrightarrow> \<bar>x\<bar> < DBL_OVERFLOW" by simp
qed

lemma as_float_in_range: "\<bar>x\<bar> < DBL_OVERFLOW \<Longrightarrow> as_float x = Inr x"
  by (simp add: as_float_def)

lemma as_float_0: "as_float 0 = Inr 0"
  by (simp add: as_float_def DBL_OVERFLOW_def)

lemma max_dev_position:
  assumes "pos ''X'' = Some (Num x)" "pos ''Y'' = Some (Num y)" "pos ''Z'' = Some (Num z)"
    and "\<bar>x\<bar> < DBL_OVERFLOW" "\<bar>y\<bar> < DBL_OVERFLOW" "\<bar>z\<bar> < DBL_OVERFLOW"
  shows "max_dev (Dict pos) = Inr (max (max \<bar>x - 50\<bar> \<bar>y - 30\<bar>) \<bar>z - 10\<bar>)"
  using assms
  by (simp add: max_dev_def axis_dev_def getitem_def EXPECTED_POSITION_def as_float_in_range
      max.commute max.left_commute)

lemma num_item: "s k = Some (Num x) \<Longrightarrow> bind (getitem s k) as_num = Inr x"
  by (simp add: getitem_def)

text \<open>
  On a well-formed input whose position is in range the classifier raises nothing and is
  this chain of tests.
\<close>

lemma classify_state_wf:
  assumes "well_formed s" "position_in_range s"
  shows "classify_state s m = Inr
     (if 75 < spindle_temp s \<and> spindle_temp s \<le> 90 then ''Maintenance_KG:Possible_Overheating''
      else if spindle_temp s > 90 then
        (if 350 < power_draw s \<and> power_draw s < 400 then ''Cyberattack_KG:Possible_Glitch/Firmware''
         else if power_draw s \<ge> 400 then ''Cyberattack_KG:Likely_Glitch/Firmware''
         else ''Maintenance_KG:Spindle_Overheat'')
      else if 3/2 < vibration s \<and> vibration s \<le> 7/2 then
        ''Cyberattack_KG:Possible_Vibration_Sabotage''
      else if vibration s > 7/2 then ''Cyberattack_KG:Likely_Vibration_Sabotage''
      else if 350 \<le> power_draw s \<and> power_draw s < 400 then ''PowerDraw_KG:Possible_Elevated_Load''
      else if power_draw s \<ge> 400 then ''PowerDraw_KG:High_Power_Consumption''
      else if drift s > 5 \<and> drift s \<le> 10 then ''Maintenance_KG:Minor_Position_Drift''
      else if drift s > 10 then ''Cyberattack_KG:Major_Position_Change''
      else if tool_truthy_not_123 m then ''Maintenance_KG:Tool_Change''
      else if s ''inspection'' = Some (Str ''FAIL'') then ''Normal_KG:Inspection_Fail''
      else ''Normal_KG:Operation_Normal'')"
proof -
  from assms(1) obtain t v p pos x y z ins where h:
    "s ''spindle_temp'' = Some (Num t)" "s ''vibration'' = Some (Num v)"
    "s ''power_draw'' = Some (Num p)" "s ''position'' = Some (Dict pos)"
    "pos ''X'' = Some (Num x)" "pos ''Y'' = Some (Num y)" "pos ''Z'' = Some (Num z)"
    "s ''inspection'' = Some (Str ins)"
    by (rule well_formedE)
  have n: "bind (getitem s ''spindle_temp'') as_num = Inr t"
     "bind (getitem s ''vibration'') as_num = Inr v"
     "bind (getitem s ''power_draw'') as_num = Inr p"
    using h by (simp_all add: num_item)
  have g: "getitem s ''position'' = Inr (Dict pos)" "getitem s ''inspection'' = Inr (Str ins)"
    using h by (simp_all add: getitem_def)
  have rg: "\<bar>x\<bar> < DBL_OVERFLOW" "\<bar>y\<bar> < DBL_OVERFLOW" "\<bar>z\<bar> < DBL_OVERFLOW"
    using assms(2) h by (simp_all add: position_in_range_def)
  have md: "max_dev (Dict pos) = Inr (drift s)"
    using h rg by (simp add: max_dev_position drift_def)
  have r: "spindle_temp s = t" "vibration s = v" "power_draw s = p"
    using h by (simp_all add: spindle_temp_def vibration_def power_draw_def)
  show ?thesis
    unfolding classify_state_def n g md r bind.simps tool_truthy_not_123_def
      TOLERANCE_WARNING_def TOLERANCE_CRITICAL_def
    using h(8) by (simp only: if_distrib[of Inr] val.inject option.inject split: if_split)
qed

text \<open>A drift within the critical tolerance keeps every coordinate far below the bound.\<close>

lemma drift_in_range:
  assumes "well_formed s" "drift s \<le> 10"
  shows "position_in_range s"
proof -
  from assms(1) obtain t v p pos x y z ins where h:
    "s ''spindle_temp'' = Some (Num t)" "s ''vibration'' = Some (Num v)"
    "s ''power_draw'' = Some (Num p)" "s ''position'' = Some (Dict pos)"
    "pos ''X'' = Some (Num x)" "pos ''Y'' = Some (Num y)" "pos ''Z'' = Some (Num z)"
    "s ''inspection'' = Some (Str ins)"
    by (rule well_formedE)
  from assms(2) h have "\<bar>x - 50\<bar> \<le> 10" "\<bar>y - 30\<bar> \<le> 10" "\<bar>z - 10\<bar> \<le> 10"
    by (simp_all add: drift_def)
  then have "\<bar>x\<bar> \<le> 1000" "\<bar>y\<bar> \<le> 1000" "\<bar>z\<bar> \<le> 1000" by linarith+
  then show ?thesis using h by (simp add: position_in_range_def small_in_range)
qed

lemma bind_Inr_iff: "bind m f = Inr y \<longleftrightarrow> (\<exists>x. m = Inr x \<and> f x = Inr y)"
  by (cases m) auto

text \<open>The labels of branch 2 come from branch 2 only.\<close>

lemma branch_2_labels:
  assumes "s ''spindle_temp'' = Some (Num t)" "s ''power_draw'' = Some (Num p)"
  shows "classify_state s m \<in>
           {Inr ''Cyberattack_KG:Possible_Glitch/Firmware'',
            Inr ''Cyberattack_KG:Likely_Glitch/Firmware'',
            Inr ''Maintenance_KG:Spindle_Overheat''} \<longleftrightarrow> t > 90"
proof (cases "t > 90")
  case True
  then show ?thesis
    using assms by (simp add: classify_state_def getitem_def)
next
  case False
  have n: "bind (getitem s ''spindle_temp'') as_num = Inr t"
    using assms(1) by (rule num_item)
  have "classify_state s m \<noteq> Inr l"
    if "l \<in> {''Cyberattack_KG:Possible_Glitch/Firmware'',
            ''Cyberattack_KG:Likely_Glitch/Firmware'', ''Maintenance_KG:Spindle_Overheat''}" for l
  proof
    assume "classify_state s m = Inr l"
    then show False
      using that False unfolding classify_state_def n bind.simps
      by (auto simp add: bind_Inr_iff split: if_splits)
  qed
  with False show ?thesis by auto
qed


lemma well_formed_readings: "well_formed (readings t v p pos insp)"
  by (cases pos) (simp add: readings_def well_formed_def)

lemma readings_simps:
  "spindle_temp (readings t v p pos insp) = t"
  "vibration (readings t v p pos insp) = v"
  "power_draw (readings t v p pos insp) = p"
  "drift (readings t v p (x, y, z) insp) = max (max \<bar>x - 50\<bar> \<bar>y - 30\<bar>) \<bar>z - 10\<bar>"
  "readings t v p pos insp ''inspection'' = Some (Str insp)"
  "readings t v p pos insp ''spindle_temp'' = Some (Num t)"
  "readings t v p pos insp ''vibration'' = Some (Num v)"
  "readings t v p pos insp ''power_draw'' = Some (Num p)"
  by (cases pos; simp add: readings_def spindle_temp_def vibration_def power_draw_def drift_def)+

lemma readings_in_range:
  assumes "\<bar>x\<bar> \<le> 1000" "\<bar>y\<bar> \<le> 1000" "\<bar>z\<bar> \<le> 1000"
  shows "position_in_range (readings t v p (x, y, z) insp)"
  using assms by (simp add: readings_def position_in_range_def small_in_range)

lemma readings_exact:
  assumes "\<bar>x\<bar> \<le> 1000" "\<bar>y\<bar> \<le> 1000" "0 \<le> z" "z \<le> 1000"
  shows "position_exact (readings t v p (x, y, z) insp)"
proof -
  from assms(3,4) have "\<bar>z\<bar> \<le> 1000" by simp
  with assms(1,2) have "position_in_range (readings t v p (x, y, z) insp)"
    by (rule readings_in_range)
  moreover have "z_exact (readings t v p (x, y, z) insp ''position'')"
    using assms(3) by (simp add: readings_def)
  ultimately show ?thesis by (simp add: position_exact_def)
qed

lemma with_tool_simps:
  "tool_truthy_not_123 (with_tool n) \<longleftrightarrow> n \<noteq> 0 \<and> n \<noteq> 1 \<and> n \<noteq> 2 \<and> n \<noteq> 3"
  "tool_present_not_123 (with_tool n) \<longleftrightarrow> n \<noteq> 1 \<and> n \<noteq> 2 \<and> n \<noteq> 3"
  "with_tool n ''tool_id'' = Some (Num n)"
  by (auto simp add: with_tool_def tool_truthy_not_123_def tool_present_not_123_def get_def)

text \<open>
  C2, as the code has it. The first test of the classifier is
  \<open>spindle_temp > 75 and spindle_temp <= 90\<close>, with an inclusive upper bound: an input
  whose spindle temperature is exactly 90 is decided by branch 1 and the label is
  \<open>Maintenance_KG:Possible_Overheating\<close>, whatever the other readings and the machine
  data are (they are not even read). On well-formed inputs the three labels of
  branch 2 are returned exactly when the spindle temperature is above 90.
\<close>

theorem spindle_temp_90_branch_1:
  "(s ''spindle_temp'' = Some (Num 90) \<longrightarrow>
      classify_state s m = Inr ''Maintenance_KG:Possible_Overheating'')
   \<and> (well_formed s \<longrightarrow>
        (classify_state s m \<in>
           {Inr ''Cyberattack_KG:Possible_Glitch/Firmware'',
            Inr ''Cyberattack_KG:Likely_Glitch/Firmware'',
            Inr ''Maintenance_KG:Spindle_Overheat''}
         \<longleftrightarrow> spindle_temp s > 90))"
proof (intro conjI impI)
  assume "s ''spindle_temp'' = Some (Num 90)"
  then show "classify_state s m = Inr ''Maintenance_KG:Possible_Overheating''"
    by (simp add: classify_state_def getitem_def)
next
  assume "well_formed s"
  then obtain t v p pos x y z ins where h:
    "s ''spindle_temp'' = Some (Num t)" "s ''vibration'' = Some (Num v)"
    "s ''power_draw'' = Some (Num p)" "s ''position'' = Some (Dict pos)"
    "pos ''X'' = Some (Num x)" "pos ''Y'' = Some (Num y)" "pos ''Z'' = Some (Num z)"
    "s ''inspection'' = Some (Str ins)"
    by (rule well_formedE)
  from h(1) have "spindle_temp s = t" by (simp add: spindle_temp_def)
  with branch_2_labels[OF h(1) h(3), of m]
  show "classify_state s m \<in>
           {Inr ''Cyberattack_KG:Possible_Glitch/Firmware'',
            Inr ''Cyberattack_KG:Likely_Glitch/Firmware'',
            Inr ''Maintenance_KG:Spindle_Overheat''}
         \<longleftrightarrow> spindle_temp s > 90"
    by simp
qed

theorem spindle_temp_90_branch_1_witness:
  "classify_state (readings 90 (1/2) 250 (50, 30, 10) ''PASS'') (with_tool 2)
     = Inr ''Maintenance_KG:Possible_Overheating''
   \<and> classify_state (readings 95 1 410 (50, 30, 10) ''PASS'') (with_tool 2)
       \<in> {Inr ''Cyberattack_KG:Possible_Glitch/Firmware'',
          Inr ''Cyberattack_KG:Likely_Glitch/Firmware'',
          Inr ''Maintenance_KG:Spindle_Overheat''}"
  using spindle_temp_90_branch_1
          [of "readings 90 (1/2) 250 (50, 30, 10) ''PASS''" "with_tool 2"]
        spindle_temp_90_branch_1
          [of "readings 95 1 410 (50, 30, 10) ''PASS''" "with_tool 2"]
  by (simp add: well_formed_readings readings_simps)

theorem spindle_temp_90_counterexample:
  "well_formed (readings 90 (1/2) 250 (50, 30, 10) ''PASS'')
   \<and> readings 90 (1/2) 250 (50, 30, 10) ''PASS'' ''spindle_temp'' = Some (Num 90)
   \<and> classify_state (readings 90 (1/2) 250 (50, 30, 10) ''PASS'') (with_tool 2)
       = Inr ''Maintenance_KG:Possible_Overheating''"
  by (simp add: well_formed_readings readings_in_range readings_simps classify_state_wf)

subsection \<open>The cascade as first match\<close>

lemma classify_in_labels:
  assumes "classify_state s m = Inr l"
  shows "l \<in> set labels"
  using assms unfolding classify_state_def labels_def
  by (auto simp add: bind_Inr_iff split: if_splits)

lemma drift_if:
  "(if 5 < d \<and> d \<le> 10 then A else if 10 < d then B else R)
     = (if 5 < (d::rat) then (if d \<le> 10 then A else B) else R)"
  by auto

lemma drop_4: "drop 4 (a # b # c # d # r) = r"
  by simp

lemma first_match_least:
  "first_match rs x = Some l \<Longrightarrow>
     \<exists>k < length rs. fst (rs ! k) x \<and> l = snd (rs ! k) x \<and> (\<forall>i<k. \<not> fst (rs ! i) x)"
proof (induction rs)
  case Nil
  then show ?case by simp
next
  case (Cons r rs)
  obtain p f where r: "r = (p, f)" by (cases r)
  show ?case
  proof (cases "p x")
    case True
    with Cons.prems r have "l = f x" by simp
    with True r show ?thesis by (intro exI[of _ 0]) simp
  next
    case False
    with Cons.prems r have "first_match rs x = Some l" by simp
    from Cons.IH[OF this] obtain k where k: "k < length rs" "fst (rs ! k) x"
      "l = snd (rs ! k) x" "\<forall>i<k. \<not> fst (rs ! i) x" by blast
    have "\<forall>i<Suc k. \<not> fst ((r # rs) ! i) x"
      using k(4) False r by (auto simp: less_Suc_eq_0_disj)
    with k show ?thesis by (intro exI[of _ "Suc k"]) simp
  qed
qed

lemma first_match_cascade:
  assumes "well_formed s" "position_in_range s"
  shows "case classify_state s m of Inl e \<Rightarrow> False
         | Inr l \<Rightarrow> first_match cascade (s, m) = Some l"
  unfolding classify_state_wf[OF assms] cascade_def rules_def first_match.simps prod.case
    drift_if sum.case
  by (simp only: if_distrib[of Some] if_True)

lemma length_cascade: "length cascade = 10"
  by (simp add: cascade_def rules_def)

lemma labels_distinct: "distinct labels \<and> length labels = 13"
  by (simp add: labels_def)

lemma nominal_simps:
  "well_formed nominal" "spindle_temp nominal = 60" "vibration nominal = 1/2"
  "power_draw nominal = 250" "drift nominal = 0"
  "nominal ''inspection'' = Some (Str ''PASS'')"
  "position_in_range nominal" "position_exact nominal"
  by (simp_all add: nominal_def well_formed_readings readings_simps readings_in_range
      readings_exact)

text \<open>
  C1, as the code has it. The cascade has ten rules and thirteen labels (rule 2 has
  three outcomes, rule 7 has two). For every well-formed sensors mapping whose position
  coordinates are within the double range, with \<open>Z\<close> outside \<open>[-2^-50, 0)\<close>, and every
  machine mapping the classifier raises nothing and returns one label of the thirteen:
  the label of the first rule, in the order of the cascade, whose predicate holds, so
  that no rule before it holds. Rule 8 is the test of the code: the value of
  \<open>machine.get("tool_id")\<close> is true as a condition (for a number: not zero) and is
  not one of 1, 2, 3. The condition on the position is where the exact deviation of
  rule 7 is the one that the code computes in doubles.
\<close>

theorem classify_state_first_match:
  "length cascade = 10 \<and> distinct labels \<and> length labels = 13 \<and>
   (well_formed s \<and> position_exact s \<longrightarrow>
     (\<exists>k<length cascade.
        fst (cascade ! k) (s, m) \<and> (\<forall>i<k. \<not> fst (cascade ! i) (s, m))
        \<and> classify_state s m = Inr (snd (cascade ! k) (s, m))
        \<and> snd (cascade ! k) (s, m) \<in> set labels))"
proof (intro conjI impI)
  assume a: "well_formed s \<and> position_exact s"
  then have wf: "well_formed s" and rg: "position_in_range s"
    by (simp_all add: position_exact_def)
  from classify_state_wf[OF wf rg] obtain l where l: "classify_state s m = Inr l" by blast
  with first_match_cascade[OF wf rg, of m] have "first_match cascade (s, m) = Some l" by simp
  from first_match_least[OF this] obtain k where k: "k < length cascade"
    "fst (cascade ! k) (s, m)" "l = snd (cascade ! k) (s, m)" "\<forall>i<k. \<not> fst (cascade ! i) (s, m)"
    by blast
  from l have "l \<in> set labels" by (rule classify_in_labels)
  with k l show "\<exists>k<length cascade.
        fst (cascade ! k) (s, m) \<and> (\<forall>i<k. \<not> fst (cascade ! i) (s, m))
        \<and> classify_state s m = Inr (snd (cascade ! k) (s, m))
        \<and> snd (cascade ! k) (s, m) \<in> set labels" by blast
qed (simp_all add: length_cascade labels_distinct)

theorem classify_state_first_match_witness:
  "well_formed (readings 95 1 410 (50, 30, 10) ''PASS'')
   \<and> position_exact (readings 95 1 410 (50, 30, 10) ''PASS'')
   \<and> (\<exists>k. k < length cascade
        \<and> fst (cascade ! k) (readings 95 1 410 (50, 30, 10) ''PASS'', with_tool 2)
        \<and> classify_state (readings 95 1 410 (50, 30, 10) ''PASS'') (with_tool 2)
            = Inr (snd (cascade ! k) (readings 95 1 410 (50, 30, 10) ''PASS'', with_tool 2)))"
  using classify_state_first_match [of "readings 95 1 410 (50, 30, 10) ''PASS''" "with_tool 2"]
    well_formed_readings [of 95 1 410 "(50, 30, 10)" "''PASS''"]
    readings_exact [of 50 30 10 95 1 410 "''PASS''"]
  by force

text \<open>
  The claim as stated fails. With the documented rule 8 (\<open>tool_id\<close> present and
  not in {1, 2, 3}) the first matching rule of the nominal input with tool 0 is rule 8,
  but the classifier returns \<open>Normal_KG:Operation_Normal\<close>. The thirteen sample
  inputs are classified with thirteen distinct labels, so that no set of ten labels
  holds every result. And the well-formed input whose \<open>X\<close> is the integer \<open>10^400\<close>
  gets no label: the subtraction raises \<open>OverflowError\<close>.
\<close>

theorem classify_state_documented_cascade_counterexample:
  "well_formed nominal \<and> position_exact nominal
   \<and> first_match documented_cascade (nominal, with_tool 0) = Some ''Maintenance_KG:Tool_Change''
   \<and> classify_state nominal (with_tool 0) = Inr ''Normal_KG:Operation_Normal''
   \<and> map (case_prod classify_state) samples = map Inr labels
   \<and> distinct labels \<and> length labels = 13
   \<and> well_formed (readings 60 (1/2) 250 (10 ^ 400, 30, 10) ''PASS'')
   \<and> classify_state (readings 60 (1/2) 250 (10 ^ 400, 30, 10) ''PASS'') (with_tool 1)
       = Inl OverflowError"
proof (intro conjI)
  show "classify_state (readings 60 (1/2) 250 (10 ^ 400, 30, 10) ''PASS'') (with_tool 1)
       = Inl OverflowError"
    by (simp add: classify_state_def readings_def getitem_def max_dev_def axis_dev_def
        EXPECTED_POSITION_def as_float_def DBL_OVERFLOW_def)
  show "first_match documented_cascade (nominal, with_tool 0) = Some ''Maintenance_KG:Tool_Change''"
    by (simp add: documented_cascade_def rules_def nominal_simps with_tool_simps)
  show "classify_state nominal (with_tool 0) = Inr ''Normal_KG:Operation_Normal''"
    by (simp add: classify_state_wf nominal_simps with_tool_simps)
  show "map (case_prod classify_state) samples = map Inr labels"
    by (simp add: samples_def labels_def classify_state_wf well_formed_readings
        readings_in_range readings_simps with_tool_simps)
qed (simp_all add: nominal_simps labels_distinct well_formed_readings)

text \<open>
  C4, as the code has it. Rule 8 is \<open>machine.get("tool_id") and machine["tool_id"] not in
  [1, 2, 3]\<close>: when none of the rules 1 to 7 matches a well-formed input and the machine
  mapping has a \<open>tool_id\<close> whose value is true as a condition (a number other than zero,
  a non-empty string or dictionary) and is not 1, 2 or 3, the label is
  \<open>Maintenance_KG:Tool_Change\<close>. With tool id 0 the first conjunct is false, rule 8 is
  skipped and the label is decided by the inspection reading.
\<close>

theorem tool_change_needs_truthy_tool_id:
  assumes "well_formed s"
    and "\<not> (75 < spindle_temp s \<and> spindle_temp s \<le> 90)" "\<not> spindle_temp s > 90"
    and "\<not> (3/2 < vibration s \<and> vibration s \<le> 7/2)" "\<not> vibration s > 7/2"
    and "\<not> (350 \<le> power_draw s \<and> power_draw s < 400)" "\<not> power_draw s \<ge> 400"
    and "\<not> drift s > 5"
    and "m ''tool_id'' = Some v"
  shows "(truthy v \<and> \<not> in_nums v [1, 2, 3] \<longrightarrow>
           classify_state s m = Inr ''Maintenance_KG:Tool_Change'')
       \<and> (v = Num 0 \<longrightarrow>
           classify_state s m =
             Inr (if s ''inspection'' = Some (Str ''FAIL'') then ''Normal_KG:Inspection_Fail''
                  else ''Normal_KG:Operation_Normal''))"
proof -
  have t: "tool_truthy_not_123 m \<longleftrightarrow> truthy v \<and> \<not> in_nums v [1, 2, 3]"
    using assms(9) by (simp add: tool_truthy_not_123_def get_def)
  have d: "\<not> (5 < drift s \<and> drift s \<le> 10)" "\<not> 10 < drift s"
    using assms(8) by simp_all
  from assms(8) have "drift s \<le> 10" by simp
  with assms(1) have rg: "position_in_range s" by (rule drift_in_range)
  show ?thesis
    unfolding classify_state_wf[OF assms(1) rg] t
    using assms(2-7) d by auto
qed

theorem tool_change_needs_truthy_tool_id_witness:
  "with_tool 4 ''tool_id'' = Some (Num 4) \<and> truthy (Num 4) \<and> \<not> in_nums (Num 4) [1, 2, 3]
   \<and> classify_state nominal (with_tool 4) = Inr ''Maintenance_KG:Tool_Change''"
  using tool_change_needs_truthy_tool_id [of nominal "with_tool 4" "Num 4"]
  by (simp add: nominal_simps with_tool_simps)

theorem tool_id_zero_counterexample:
  "well_formed (readings 60 (1/2) 250 (50, 30, 10) ''FAIL'')
   \<and> with_tool 0 ''tool_id'' = Some (Num 0) \<and> \<not> in_nums (Num 0) [1, 2, 3]
   \<and> classify_state (readings 60 (1/2) 250 (50, 30, 10) ''FAIL'') (with_tool 0)
       = Inr ''Normal_KG:Inspection_Fail''
   \<and> classify_state (readings 60 (1/2) 250 (50, 30, 10) ''FAIL'') (with_tool 0)
       \<noteq> Inr ''Maintenance_KG:Tool_Change''"
  by (simp add: classify_state_wf well_formed_readings readings_in_range readings_simps
      with_tool_simps)

text \<open>
  C7. The lower bound of rule 3 is strict: an input whose vibration is exactly 1.5
  never gets \<open>Cyberattack_KG:Possible_Vibration_Sabotage\<close>, whatever else it holds.
  When rules 1 and 2 do not match either (spindle temperature at most 75), every label
  that it gets is a label of the rules 5 to 10. When it is well formed besides, with
  position coordinates within the double range and \<open>Z\<close> outside \<open>[-2^-50, 0)\<close>, it
  gets a label, which is the first match among the rules 5 to 10.
\<close>

theorem vibration_boundary_strict:
  "(s ''vibration'' = Some (Num (3/2)) \<longrightarrow>
      classify_state s m \<noteq> Inr ''Cyberattack_KG:Possible_Vibration_Sabotage'')
   \<and> (s ''vibration'' = Some (Num (3/2)) \<and> s ''spindle_temp'' = Some (Num t) \<and> t \<le> 75
        \<and> classify_state s m = Inr l \<longrightarrow> l \<in> set (drop 6 labels))
   \<and> (well_formed s \<and> position_exact s \<and> vibration s = 3/2 \<and> spindle_temp s \<le> 75 \<longrightarrow>
        (case classify_state s m of Inl e \<Rightarrow> False
         | Inr l \<Rightarrow> first_match (drop 4 cascade) (s, m) = Some l))"
proof (intro conjI impI)
  assume a: "s ''vibration'' = Some (Num (3/2))"
  have v: "bind (getitem s ''vibration'') as_num = Inr (3/2)"
    using a by (rule num_item)
  show "classify_state s m \<noteq> Inr ''Cyberattack_KG:Possible_Vibration_Sabotage''"
  proof
    assume "classify_state s m = Inr ''Cyberattack_KG:Possible_Vibration_Sabotage''"
    then show False
      unfolding classify_state_def v
      by (auto simp add: bind_Inr_iff split: if_splits)
  qed
next
  assume a: "s ''vibration'' = Some (Num (3/2)) \<and> s ''spindle_temp'' = Some (Num t) \<and> t \<le> 75
        \<and> classify_state s m = Inr l"
  then have v: "bind (getitem s ''vibration'') as_num = Inr (3/2)"
    and n: "bind (getitem s ''spindle_temp'') as_num = Inr t"
    by (simp_all add: num_item)
  from a have "classify_state s m = Inr l" and "t \<le> 75" by simp_all
  then show "l \<in> set (drop 6 labels)"
    unfolding classify_state_def v n bind.simps labels_def
    by (auto simp add: bind_Inr_iff split: if_splits)
next
  assume a: "well_formed s \<and> position_exact s \<and> vibration s = 3/2 \<and> spindle_temp s \<le> 75"
  then have wf: "well_formed s" and rg: "position_in_range s"
    by (simp_all add: position_exact_def)
  have f: "(75 < spindle_temp s \<and> spindle_temp s \<le> 90) = False" "(90 < spindle_temp s) = False"
    "(3/2 < vibration s \<and> vibration s \<le> 7/2) = False" "(7/2 < vibration s) = False"
    using a by simp_all
  show "case classify_state s m of Inl e \<Rightarrow> False
         | Inr l \<Rightarrow> first_match (drop 4 cascade) (s, m) = Some l"
    unfolding classify_state_wf[OF wf rg] cascade_def rules_def drop_4 first_match.simps
      prod.case drift_if sum.case f if_False
    by (simp only: if_distrib[of Some] if_True)
qed

theorem vibration_boundary_strict_witness:
  "readings 60 (3/2) 360 (50, 30, 10) ''PASS'' ''vibration'' = Some (Num (3/2))
   \<and> classify_state (readings 60 (3/2) 360 (50, 30, 10) ''PASS'') (with_tool 1)
       \<noteq> Inr ''Cyberattack_KG:Possible_Vibration_Sabotage''
   \<and> classify_state (readings 60 (3/2) 360 (50, 30, 10) ''PASS'') (with_tool 1)
       = Inr ''PowerDraw_KG:Possible_Elevated_Load''
   \<and> ''PowerDraw_KG:Possible_Elevated_Load'' \<in> set (drop 6 labels)
   \<and> position_exact (readings 60 (3/2) 360 (50, 30, 10) ''PASS'')
   \<and> (case classify_state (readings 60 (3/2) 360 (50, 30, 10) ''PASS'') (with_tool 1) of
         Inl e \<Rightarrow> False
       | Inr l \<Rightarrow> first_match (drop 4 cascade)
                    (readings 60 (3/2) 360 (50, 30, 10) ''PASS'', with_tool 1) = Some l)"
proof -
  have c: "classify_state (readings 60 (3/2) 360 (50, 30, 10) ''PASS'') (with_tool 1)
       = Inr ''PowerDraw_KG:Possible_Elevated_Load''"
    by (simp add: classify_state_wf well_formed_readings readings_in_range readings_simps)
  have e: "position_exact (readings 60 (3/2) 360 (50, 30, 10) ''PASS'')"
    by (simp add: readings_exact)
  from vibration_boundary_strict
         [of "readings 60 (3/2) 360 (50, 30, 10) ''PASS''" "with_tool 1" 60
             "''PowerDraw_KG:Possible_Elevated_Load''"] c e
  show ?thesis
    by (simp add: well_formed_readings readings_simps)
qed

text \<open>
  C9. When the sensors mapping has numbers under \<open>spindle_temp\<close>, \<open>vibration\<close> and
  \<open>power_draw\<close> and one of the rules 1 to 6 matches, the classifier returns one of the
  first eight labels without an error, and the same label when the \<open>position\<close> and
  \<open>inspection\<close> keys are removed, and when the mapping holds nothing but the three
  readings and the machine mapping is any other: neither entry is read.
\<close>

theorem early_rules_ignore_position_inspection:
  assumes "s ''spindle_temp'' = Some (Num t)" "s ''vibration'' = Some (Num v)"
    "s ''power_draw'' = Some (Num p)"
    and "(75 < t \<and> t \<le> 90) \<or> t > 90 \<or> (3/2 < v \<and> v \<le> 7/2) \<or> v > 7/2
         \<or> (350 \<le> p \<and> p < 400) \<or> p \<ge> 400"
  shows "\<exists>l \<in> set (take 8 labels).
           classify_state s m = Inr l
           \<and> classify_state (s(''position'' := None, ''inspection'' := None)) m = Inr l
           \<and> classify_state [''spindle_temp'' \<mapsto> Num t, ''vibration'' \<mapsto> Num v,
                              ''power_draw'' \<mapsto> Num p] m' = Inr l"
proof -
  let ?s1 = "s(''position'' := None, ''inspection'' := None)"
  let ?s2 = "[''spindle_temp'' \<mapsto> Num t, ''vibration'' \<mapsto> Num v, ''power_draw'' \<mapsto> Num p]"
  have n: "bind (getitem s ''spindle_temp'') as_num = Inr t"
     "bind (getitem s ''vibration'') as_num = Inr v"
     "bind (getitem s ''power_draw'') as_num = Inr p"
     "bind (getitem ?s1 ''spindle_temp'') as_num = Inr t"
     "bind (getitem ?s1 ''vibration'') as_num = Inr v"
     "bind (getitem ?s1 ''power_draw'') as_num = Inr p"
     "bind (getitem ?s2 ''spindle_temp'') as_num = Inr t"
     "bind (getitem ?s2 ''vibration'') as_num = Inr v"
     "bind (getitem ?s2 ''power_draw'') as_num = Inr p"
    using assms(1-3) by (simp_all add: num_item)
  show ?thesis
    unfolding classify_state_def n bind.simps labels_def
    using assms(4) by auto
qed

theorem early_rules_ignore_position_inspection_witness:
  "\<exists>l. classify_state (readings 60 2 300 (50, 30, 10) ''PASS'') (with_tool 4) = Inr l
      \<and> classify_state
           [''spindle_temp'' \<mapsto> Num 60, ''vibration'' \<mapsto> Num 2, ''power_draw'' \<mapsto> Num 300]
           Map.empty = Inr l"
  using early_rules_ignore_position_inspection
    [of "readings 60 2 300 (50, 30, 10) ''PASS''" 60 2 300 "with_tool 4" Map.empty]
  by (auto simp add: readings_simps)

section \<open>Properties of the tool changer\<close>

lemma choice_nonempty:
  "xs \<noteq> [] \<Longrightarrow> \<exists>x \<in> set xs. choice xs g = Inr (x, snd (draw g))"
  by (auto simp add: choice_def draw_def)

lemma check_stable:
  "cid mod 10 \<noteq> 0 \<Longrightarrow> check_and_change_tool a cid g = Inr (current_tool a, a, g)"
  by (simp add: check_and_change_tool_def)

lemma check_changing:
  assumes "cid mod 10 = 0" "tools a \<noteq> []"
  shows "\<exists>t \<in> set (tools a).
           check_and_change_tool a cid g = Inr (t, a\<lparr>current_tool := t\<rparr>, snd (draw g))"
proof -
  from choice_nonempty[OF assms(2), of g] obtain t where
    "t \<in> set (tools a)" "choice (tools a) g = Inr (t, snd (draw g))" by blast
  with assms(1) show ?thesis by (auto simp add: check_and_change_tool_def)
qed

lemma check_invariant:
  assumes "tools a \<noteq> []" "current_tool a \<in> set (tools a)"
  shows "\<exists>a' g'. check_and_change_tool a cid g = Inr (current_tool a', a', g')
           \<and> tools a' = tools a \<and> current_tool a' \<in> set (tools a)"
proof (cases "cid mod 10 = 0")
  case True
  from check_changing[OF True assms(1), of g] show ?thesis by auto
next
  case False
  with assms(2) show ?thesis by (simp add: check_stable)
qed

lemma atc_calls_invariant:
  assumes "tools a \<noteq> []" "current_tool a \<in> set (tools a)"
  shows "\<exists>a' g'. atc_calls a cids g = Inr (a', g')
           \<and> tools a' = tools a \<and> current_tool a' \<in> set (tools a)"
  using assms
proof (induction cids arbitrary: a g)
  case Nil
  then show ?case by simp
next
  case (Cons c cids)
  from check_invariant[OF Cons.prems, of c g] obtain a1 g1 where
    s: "check_and_change_tool a c g = Inr (current_tool a1, a1, g1)"
       "tools a1 = tools a" "current_tool a1 \<in> set (tools a)" by blast
  then have "tools a1 \<noteq> []" "current_tool a1 \<in> set (tools a1)"
    using Cons.prems by simp_all
  from Cons.IH[OF this, of g1] s show ?case by auto
qed

text \<open>
  C5. A tool changer built on a non-empty list starts with the first tool. A call with
  a cycle id that is not a multiple of 10 changes nothing and returns the current tool;
  a call with a multiple of 10 sets the current tool to an element of the list and
  returns it. So after any run of calls on a fresh tool changer no call has failed, the
  list is the configured one and the current tool is one of its elements.
\<close>

theorem tool_changer_invariant:
  "(ts \<noteq> [] \<longrightarrow> atc_init ts = Inr \<lparr>tools = ts, current_tool = hd ts\<rparr>)
   \<and> (cid mod 10 \<noteq> 0 \<longrightarrow> check_and_change_tool a cid g = Inr (current_tool a, a, g))
   \<and> (cid mod 10 = 0 \<and> tools a \<noteq> [] \<longrightarrow>
        (\<exists>t \<in> set (tools a).
           check_and_change_tool a cid g = Inr (t, a\<lparr>current_tool := t\<rparr>, snd (draw g))))
   \<and> (ts \<noteq> [] \<longrightarrow>
        (\<exists>a' g'. bind (atc_init ts) (\<lambda>a0. atc_calls a0 cids g) = Inr (a', g')
           \<and> tools a' = ts \<and> current_tool a' \<in> set ts))"
proof (intro conjI impI)
  assume "ts \<noteq> []"
  then show "atc_init ts = Inr \<lparr>tools = ts, current_tool = hd ts\<rparr>"
    by (cases ts) (simp_all add: atc_init_def)
next
  assume "cid mod 10 \<noteq> 0"
  then show "check_and_change_tool a cid g = Inr (current_tool a, a, g)"
    by (rule check_stable)
next
  assume "cid mod 10 = 0 \<and> tools a \<noteq> []"
  then show "\<exists>t \<in> set (tools a).
           check_and_change_tool a cid g = Inr (t, a\<lparr>current_tool := t\<rparr>, snd (draw g))"
    by (simp add: check_changing)
next
  assume ne: "ts \<noteq> []"
  then have i: "atc_init ts = Inr \<lparr>tools = ts, current_tool = hd ts\<rparr>"
    by (cases ts) (simp_all add: atc_init_def)
  from ne have "tools \<lparr>tools = ts, current_tool = hd ts\<rparr> \<noteq> []"
    "current_tool \<lparr>tools = ts, current_tool = hd ts\<rparr> \<in> set (tools \<lparr>tools = ts, current_tool = hd ts\<rparr>)"
    by simp_all
  from atc_calls_invariant[OF this, of cids g] i
  show "\<exists>a' g'. bind (atc_init ts) (\<lambda>a0. atc_calls a0 cids g) = Inr (a', g')
           \<and> tools a' = ts \<and> current_tool a' \<in> set ts"
    by auto
qed

theorem tool_changer_invariant_witness:
  "atc_init [1, 2, 3, 4, 5] = Inr \<lparr>tools = [1, 2, 3, 4, 5], current_tool = 1\<rparr>
   \<and> check_and_change_tool \<lparr>tools = [1, 2, 3, 4, 5], current_tool = 1\<rparr> 7 no_entropy
       = Inr (1, \<lparr>tools = [1, 2, 3, 4, 5], current_tool = 1\<rparr>, no_entropy)
   \<and> (\<exists>t. t \<in> set [1, 2, 3, 4, 5]
        \<and> fst (projr (check_and_change_tool \<lparr>tools = [1, 2, 3, 4, 5], current_tool = 1\<rparr> 10
                        no_entropy)) = t)
   \<and> (\<exists>a' g'. bind (atc_init [1, 2, 3, 4, 5]) (\<lambda>a0. atc_calls a0 [9, 10, 11] no_entropy)
                = Inr (a', g')
        \<and> current_tool a' \<in> set [1, 2, 3, 4, 5])"
  using tool_changer_invariant
          [of "[1, 2, 3, 4, 5]" 7 "\<lparr>tools = [1, 2, 3, 4, 5], current_tool = 1\<rparr>" no_entropy
              "[9, 10, 11]"]
        tool_changer_invariant
          [of "[1, 2, 3, 4, 5]" 10 "\<lparr>tools = [1, 2, 3, 4, 5], current_tool = 1\<rparr>" no_entropy
              "[9, 10, 11]"]
  by auto

section \<open>Properties of the machines and of the engine\<close>

lemma choice_Cons: "\<exists>y g'. choice (x # xs) g = Inr (y, g')"
  by (simp add: choice_def draw_def)

lemma check_total:
  assumes "tools a \<noteq> []"
  shows "\<exists>t a' g'. check_and_change_tool a cid g = Inr (t, a', g')"
proof (cases "cid mod 10 = 0")
  case True
  from assms obtain x xs where "tools a = x # xs" by (cases "tools a") auto
  with choice_Cons[of x xs g] obtain y g' where "choice (tools a) g = Inr (y, g')" by auto
  with True show ?thesis by (simp add: check_and_change_tool_def)
next
  case False
  then show ?thesis by (simp add: check_and_change_tool_def)
qed

lemma perform_CNCMill:
  assumes "tools a \<noteq> []"
  shows "\<exists>r a' g'. perform_operation (CNCMill n a) cid g = Inr (r, CNCMill n a', g')
           \<and> dom r = {''operation'', ''tool_id''}"
proof -
  have "\<exists>op g1. choice [''cutting'', ''drilling'', ''idle''] g = Inr (op, g1)"
    by (rule choice_Cons)
  then obtain op g1 where c: "choice [''cutting'', ''drilling'', ''idle''] g = Inr (op, g1)"
    by blast
  from check_total[OF assms] obtain t a' g2 where
    k: "check_and_change_tool a cid g1 = Inr (t, a', g2)" by blast
  have "perform_operation (CNCMill n a) cid g
      = Inr ([''operation'' \<mapsto> Str op, ''tool_id'' \<mapsto> Num (of_int t)], CNCMill n a', g2)"
    by (simp add: c k)
  moreover have "dom [''operation'' \<mapsto> Str op, ''tool_id'' \<mapsto> Num (of_int t)]
      = {''operation'', ''tool_id''}" by auto
  ultimately show ?thesis by blast
qed

lemma perform_RoboticArm:
  "\<exists>r g'. perform_operation (RoboticArm n) cid g = Inr (r, RoboticArm n, g')
           \<and> dom r = {''robotic_arm_task''}"
proof -
  have "\<exists>t g1. choice [''load_material'', ''unload_part'', ''assemble_component'', ''idle''] g
          = Inr (t, g1)"
    by (rule choice_Cons)
  then obtain t g1 where
    c: "choice [''load_material'', ''unload_part'', ''assemble_component'', ''idle''] g = Inr (t, g1)"
    by blast
  have "perform_operation (RoboticArm n) cid g = Inr ([''robotic_arm_task'' \<mapsto> Str t], RoboticArm n, g1)"
    unfolding perform_operation.simps c by simp
  moreover have "dom [''robotic_arm_task'' \<mapsto> Str t] = {''robotic_arm_task''}" by simp
  ultimately show ?thesis by blast
qed

lemma perform_ConveyorBelt:
  "\<exists>r g'. perform_operation (ConveyorBelt n) cid g = Inr (r, ConveyorBelt n, g')
           \<and> dom r = {''conveyor_position'', ''part_id''}"
proof -
  have "\<exists>t g1. choice [''Station A'', ''Station B'', ''Inspection'', ''Exit''] g = Inr (t, g1)"
    by (rule choice_Cons)
  then obtain t g1 where
    c: "choice [''Station A'', ''Station B'', ''Inspection'', ''Exit''] g = Inr (t, g1)"
    by blast
  let ?r = "[''conveyor_position'' \<mapsto> Str t, ''part_id'' \<mapsto> Str (''PART-'' @ str_int (1000 + cid))]"
  have "perform_operation (ConveyorBelt n) cid g = Inr (?r, ConveyorBelt n, g1)"
    unfolding perform_operation.simps c by (simp add: Let_def)
  moreover have "dom ?r = {''conveyor_position'', ''part_id''}" by auto
  ultimately show ?thesis by blast
qed

lemma perform_InspectionSystem:
  "\<exists>r g'. perform_operation (InspectionSystem n) cid g = Inr (r, InspectionSystem n, g')
           \<and> dom r = {''inspection_result'', ''inspection_confidence''}"
proof -
  have "\<exists>t g1. choice [''PASS'', ''FAIL''] g = Inr (t, g1)"
    by (rule choice_Cons)
  then obtain t g1 where c: "choice [''PASS'', ''FAIL''] g = Inr (t, g1)"
    by blast
  obtain x g2 where u: "uniform (7/10) 1 g1 = (x, g2)" by (cases "uniform (7/10) 1 g1")
  let ?r = "[''inspection_result'' \<mapsto> Str t, ''inspection_confidence'' \<mapsto> Num (py_round x 2)]"
  have "perform_operation (InspectionSystem n) cid g = Inr (?r, InspectionSystem n, g2)"
    unfolding perform_operation.simps c bind.simps prod.case u by (simp add: Let_def)
  moreover have "dom ?r = {''inspection_result'', ''inspection_confidence''}" by auto
  ultimately show ?thesis by blast
qed

lemma map_add_keep:
  "a k = Some v \<Longrightarrow> k \<notin> dom b \<Longrightarrow> (a ++ b) k = Some v"
  by (simp add: map_add_def domIff split: option.splits)

text \<open>
  C8. With a tool changer that has tools, each of the four machines of the default
  configuration performs its operation without an error, the key sets of the four
  results are \<open>{operation, tool_id}\<close>, \<open>{robotic_arm_task}\<close>, \<open>{conveyor_position,
  part_id}\<close> and \<open>{inspection_result, inspection_confidence}\<close>, pairwise disjoint, and
  the machine loop merges them into one mapping that has all seven keys and holds every
  field of every result with its value, for every cycle id and every random source.
\<close>

theorem default_machine_fields_disjoint:
  assumes "tools a \<noteq> []"
  shows "\<exists>r1 r2 r3 r4 a' g1 g2 g3 g4.
     perform_operation (CNCMill ''CNC_Mill_1'' a) cid g = Inr (r1, CNCMill ''CNC_Mill_1'' a', g1)
   \<and> perform_operation (RoboticArm ''Robotic_Arm_1'') cid g1
        = Inr (r2, RoboticArm ''Robotic_Arm_1'', g2)
   \<and> perform_operation (ConveyorBelt ''Conveyor_1'') cid g2
        = Inr (r3, ConveyorBelt ''Conveyor_1'', g3)
   \<and> perform_operation (InspectionSystem ''Inspection_Station'') cid g3
        = Inr (r4, InspectionSystem ''Inspection_Station'', g4)
   \<and> dom r1 = {''operation'', ''tool_id''} \<and> dom r2 = {''robotic_arm_task''}
   \<and> dom r3 = {''conveyor_position'', ''part_id''}
   \<and> dom r4 = {''inspection_result'', ''inspection_confidence''}
   \<and> dom r1 \<inter> dom r2 = {} \<and> dom r1 \<inter> dom r3 = {} \<and> dom r1 \<inter> dom r4 = {}
   \<and> dom r2 \<inter> dom r3 = {} \<and> dom r2 \<inter> dom r4 = {} \<and> dom r3 \<inter> dom r4 = {}
   \<and> run_machines (default_machines a) cid Map.empty g
        = Inr (r1 ++ r2 ++ r3 ++ r4, default_machines a', g4)
   \<and> dom (r1 ++ r2 ++ r3 ++ r4) = machine_fields
   \<and> (\<forall>k v. r1 k = Some v \<or> r2 k = Some v \<or> r3 k = Some v \<or> r4 k = Some v
          \<longrightarrow> (r1 ++ r2 ++ r3 ++ r4) k = Some v)"
proof -
  from perform_CNCMill[OF assms, of "''CNC_Mill_1''" cid g] obtain r1 a' g1 where
    p1: "perform_operation (CNCMill ''CNC_Mill_1'' a) cid g = Inr (r1, CNCMill ''CNC_Mill_1'' a', g1)"
    and d1: "dom r1 = {''operation'', ''tool_id''}" by (elim exE conjE)
  from perform_RoboticArm[of "''Robotic_Arm_1''" cid g1] obtain r2 g2 where
    p2: "perform_operation (RoboticArm ''Robotic_Arm_1'') cid g1
        = Inr (r2, RoboticArm ''Robotic_Arm_1'', g2)"
    and d2: "dom r2 = {''robotic_arm_task''}" by (elim exE conjE)
  from perform_ConveyorBelt[of "''Conveyor_1''" cid g2] obtain r3 g3 where
    p3: "perform_operation (ConveyorBelt ''Conveyor_1'') cid g2
        = Inr (r3, ConveyorBelt ''Conveyor_1'', g3)"
    and d3: "dom r3 = {''conveyor_position'', ''part_id''}" by (elim exE conjE)
  from perform_InspectionSystem[of "''Inspection_Station''" cid g3] obtain r4 g4 where
    p4: "perform_operation (InspectionSystem ''Inspection_Station'') cid g3
        = Inr (r4, InspectionSystem ''Inspection_Station'', g4)"
    and d4: "dom r4 = {''inspection_result'', ''inspection_confidence''}" by (elim exE conjE)
  have dis: "dom r1 \<inter> dom r2 = {}" "dom r1 \<inter> dom r3 = {}" "dom r1 \<inter> dom r4 = {}"
    "dom r2 \<inter> dom r3 = {}" "dom r2 \<inter> dom r4 = {}" "dom r3 \<inter> dom r4 = {}"
    unfolding d1 d2 d3 d4 by simp_all
  have run: "run_machines (default_machines a) cid Map.empty g
        = Inr (r1 ++ r2 ++ r3 ++ r4, default_machines a', g4)"
    by (simp only: default_machines_def run_machines.simps p1 p2 p3 p4 bind.simps prod.case
        empty_map_add)
  have dm: "dom (r1 ++ r2 ++ r3 ++ r4) = machine_fields"
    unfolding dom_map_add d1 d2 d3 d4 machine_fields_def by auto
  have keep: "\<forall>k v. r1 k = Some v \<or> r2 k = Some v \<or> r3 k = Some v \<or> r4 k = Some v
          \<longrightarrow> (r1 ++ r2 ++ r3 ++ r4) k = Some v"
  proof (intro allI impI)
    fix k v
    assume "r1 k = Some v \<or> r2 k = Some v \<or> r3 k = Some v \<or> r4 k = Some v"
    then consider "r1 k = Some v" | "r2 k = Some v" | "r3 k = Some v" | "r4 k = Some v"
      by blast
    then show "(r1 ++ r2 ++ r3 ++ r4) k = Some v"
    proof cases
      case 1
      then have "k \<in> dom r1" by blast
      with dis have "k \<notin> dom r2" "k \<notin> dom r3" "k \<notin> dom r4" by blast+
      with 1 show ?thesis by (simp add: map_add_keep)
    next
      case 2
      then have "k \<in> dom r2" by blast
      with dis have "k \<notin> dom r3" "k \<notin> dom r4" by blast+
      with 2 show ?thesis by (simp add: map_add_keep)
    next
      case 3
      then have "k \<in> dom r3" by blast
      with dis have "k \<notin> dom r4" by blast+
      with 3 show ?thesis by (simp add: map_add_keep)
    next
      case 4
      then show ?thesis by simp
    qed
  qed
  show ?thesis
    apply (rule exI[of _ r1], rule exI[of _ r2], rule exI[of _ r3], rule exI[of _ r4])
    apply (rule exI[of _ a'], rule exI[of _ g1], rule exI[of _ g2], rule exI[of _ g3])
    apply (rule exI[of _ g4])
    apply (intro conjI)
    apply (rule p1 p2 p3 p4 d1 d2 d3 d4 dis run dm keep)+
    done
qed

theorem default_machine_fields_disjoint_witness:
  "\<exists>md ms g'.
     run_machines (default_machines \<lparr>tools = [1, 2, 3, 4, 5], current_tool = 1\<rparr>) 1 Map.empty
       no_entropy = Inr (md, ms, g')
     \<and> dom md = machine_fields"
proof -
  have "tools \<lparr>tools = [1, 2, 3, 4, 5], current_tool = 1\<rparr> \<noteq> []" by simp
  from default_machine_fields_disjoint [OF this, of 1 no_entropy]
  obtain r1 r2 r3 r4 a' g4 where
    "run_machines (default_machines \<lparr>tools = [1, 2, 3, 4, 5], current_tool = 1\<rparr>) 1 Map.empty
       no_entropy = Inr (r1 ++ r2 ++ r3 ++ r4, default_machines a', g4)"
    "dom (r1 ++ r2 ++ r3 ++ r4) = machine_fields"
    by (elim exE conjE)
  then show ?thesis by (intro exI conjI)
qed

lemma get_data_source_real: "get_data_source (Some ''REAL'') = Dict read_real_data"
  by (simp add: get_data_source_def)

lemma truthy_real: "truthy (Dict read_real_data)"
proof -
  have "read_real_data ''tool_id'' \<noteq> None" by (simp add: read_real_data_def)
  then have "read_real_data \<noteq> Map.empty" by (metis option.distinct(1))
  then show ?thesis by simp
qed

lemma real_readings:
  "bind (subscript (Dict read_real_data) ''spindle_temp'') (\<lambda>st.
   bind (subscript (Dict read_real_data) ''vibration'') (\<lambda>vb.
   bind (subscript (Dict read_real_data) ''power_draw'') (\<lambda>pd.
   bind (subscript (Dict read_real_data) ''position'') (\<lambda>ps.
   bind (subscript (Dict read_real_data) ''inspection'') (\<lambda>ins.
     Inr ([''spindle_temp'' \<mapsto> st, ''vibration'' \<mapsto> vb, ''power_draw'' \<mapsto> pd,
           ''position'' \<mapsto> ps, ''inspection'' \<mapsto> ins], g))))))
   = Inr (substitute_bundle, g)"
  by (simp add: read_real_data_def getitem_def substitute_bundle_def)

lemma classify_substitute_bundle:
  "classify_state substitute_bundle md = Inr ''Maintenance_KG:Possible_Overheating''"
  by (simp add: classify_state_def getitem_def substitute_bundle_def)

lemma run_cycle_real:
  assumes "run_machines (machines f) cid Map.empty g = Inr (md, ms', g1)"
  shows "run_cycle f tabs (Some ''REAL'') now cid g =
      Inr \<lparr>msg = \<lparr>cycle_id = cid, timestamp = now, machine_data = md,
                   sensor_readings = substitute_bundle\<rparr>,
           classification = ''Maintenance_KG:Possible_Overheating'',
           printed = send_to_KG tabs
             (to_json \<lparr>cycle_id = cid, timestamp = now, machine_data = md,
                       sensor_readings = substitute_bundle\<rparr>)
             ''Maintenance_KG:Possible_Overheating'',
           factory_after = f\<lparr>machines := ms'\<rparr>, rng_after = g1\<rparr>"
  unfolding run_cycle_def assms bind.simps prod.case get_data_source_real Let_def
  by (simp only: truthy_real if_True real_readings bind.simps prod.case
      classify_substitute_bundle)

lemma run_cycle_machine_data:
  assumes "run_machines (machines f) cid Map.empty g = Inr (md, ms', g1)"
    and "run_cycle f tabs env now cid g = Inr out"
  shows "machine_data (msg out) = md \<and> machines (factory_after out) = ms'"
  using assms(2) unfolding run_cycle_def assms(1) bind.simps prod.case Let_def
  by (auto simp add: bind_Inr_iff)

lemma run_cycle_machines_error:
  assumes "run_machines (machines f) cid Map.empty g = Inl e"
  shows "run_cycle f tabs env now cid g = Inl e"
  unfolding run_cycle_def assms by simp

text \<open>
  C6. In the real-data mode (\<open>MODE\<close> is \<open>REAL\<close>) a cycle whose machine loop succeeds
  succeeds: its sensor readings are exactly the five entries of the substitute bundle,
  its machine data, the machines after the cycle and the random source after the cycle
  are those of the machine loop, and the label is that of the bundle. In any mode a
  cycle that succeeds has the machine data and the machines of the same machine loop,
  and a machine loop that fails makes the cycle fail in the same way in any mode.
\<close>

theorem run_cycle_real_mode:
  "(run_machines (machines f) cid Map.empty g = Inr (md, ms', g1) \<longrightarrow>
      run_cycle f tabs (Some ''REAL'') now cid g =
        Inr \<lparr>msg = \<lparr>cycle_id = cid, timestamp = now, machine_data = md,
                     sensor_readings = substitute_bundle\<rparr>,
             classification = ''Maintenance_KG:Possible_Overheating'',
             printed = send_to_KG tabs
               (to_json \<lparr>cycle_id = cid, timestamp = now, machine_data = md,
                         sensor_readings = substitute_bundle\<rparr>)
               ''Maintenance_KG:Possible_Overheating'',
             factory_after = f\<lparr>machines := ms'\<rparr>, rng_after = g1\<rparr>
      \<and> (run_cycle f tabs env now cid g = Inr out \<longrightarrow>
           machine_data (msg out) = md \<and> machines (factory_after out) = ms'))
   \<and> (run_machines (machines f) cid Map.empty g = Inl e \<longrightarrow>
        run_cycle f tabs env now cid g = Inl e)"
  by (intro conjI impI)
     (simp_all add: run_cycle_real run_cycle_machine_data run_cycle_machines_error)

lemma no_entropy_draw: "draw no_entropy = (0, no_entropy)"
  by (simp add: draw_def no_entropy_def fun_eq_iff)

lemma colliding_run:
  "\<exists>out. run_cycle colliding_factory sample_tables None 0 1 no_entropy = Inr out
     \<and> sensor_readings (msg out) ''tool_id'' = Some (Str ''PASS'')
     \<and> machine_data (msg out) ''tool_id'' = Some (Num 1)"
  by (simp add: run_cycle_def colliding_factory_def get_data_source_def choice_def
      no_entropy_draw uniform_def py_round_def round_half_even_def
      check_and_change_tool_def classify_state_def getitem_def max_dev_def axis_dev_def
      as_float_0
      EXPECTED_POSITION_def TOLERANCE_WARNING_def TOLERANCE_CRITICAL_def Let_def)

lemma default_machines_run:
  "\<exists>md ms' g1. run_machines (machines default_factory) 1 Map.empty no_entropy = Inr (md, ms', g1)"
  by (simp add: default_factory_def default_machines_def choice_def no_entropy_draw uniform_def
      check_and_change_tool_def Let_def)

lemma default_factory_sim_run:
  "\<exists>out. run_cycle default_factory sample_tables None 0 1 no_entropy = Inr out"
  by (simp add: run_cycle_def default_factory_def default_machines_def default_sensors_def
      get_data_source_def choice_def
      no_entropy_draw uniform_def py_round_def round_half_even_def
      check_and_change_tool_def classify_state_def getitem_def max_dev_def axis_dev_def
      as_float_0
      EXPECTED_POSITION_def TOLERANCE_WARNING_def TOLERANCE_CRITICAL_def Let_def)

theorem run_cycle_real_mode_witness:
  "\<exists>out out'.
     run_cycle default_factory sample_tables (Some ''REAL'') 0 1 no_entropy = Inr out
     \<and> run_cycle default_factory sample_tables None 0 1 no_entropy = Inr out'
     \<and> sensor_readings (msg out) = substitute_bundle
     \<and> machine_data (msg out) = machine_data (msg out')
     \<and> machines (factory_after out) = machines (factory_after out')"
proof -
  from default_machines_run obtain md ms' g1 where
    r: "run_machines (machines default_factory) 1 Map.empty no_entropy = Inr (md, ms', g1)"
    by (elim exE)
  from default_factory_sim_run obtain out' where
    s: "run_cycle default_factory sample_tables None 0 1 no_entropy = Inr out'"
    by (elim exE)
  let ?out = "\<lparr>msg = \<lparr>cycle_id = 1, timestamp = 0, machine_data = md,
                     sensor_readings = substitute_bundle\<rparr>,
             classification = ''Maintenance_KG:Possible_Overheating'',
             printed = send_to_KG sample_tables
               (to_json \<lparr>cycle_id = 1, timestamp = 0, machine_data = md,
                         sensor_readings = substitute_bundle\<rparr>)
               ''Maintenance_KG:Possible_Overheating'',
             factory_after = default_factory\<lparr>machines := ms'\<rparr>, rng_after = g1\<rparr>"
  from run_cycle_real_mode
    [of default_factory 1 no_entropy md ms' g1 sample_tables 0 None out'] r s
  have "run_cycle default_factory sample_tables (Some ''REAL'') 0 1 no_entropy = Inr ?out"
    and "machine_data (msg out') = md" and "machines (factory_after out') = ms'"
    by simp_all
  with s show ?thesis
    by (intro exI[of _ ?out] exI[of _ out'] conjI) simp_all
qed

section \<open>Properties of the output record\<close>

lemma labels_lookup:
  "\<forall>l \<in> set labels.
     send_to_KG tabs payload l ''kg_triple''
       = Some (case table_of tabs (category l) of None \<Rightarrow> VNone | Some t \<Rightarrow> get t l)
     \<and> category l \<in> set [''Maintenance_KG'', ''Normal_KG'', ''Cyberattack_KG'', ''PowerDraw_KG'']"
  by (simp add: labels_def send_to_KG_def category_def table_of_def Let_def)

lemma send_to_KG_frame:
  "send_to_KG tabs payload l ''kg_node'' = Some (Str l)"
  "k \<noteq> ''kg_node'' \<Longrightarrow> k \<noteq> ''kg_triple'' \<Longrightarrow> send_to_KG tabs payload l k = payload k"
  by (simp_all add: send_to_KG_def Let_def)

lemma table_of_PowerDraw: "table_of tabs ''PowerDraw_KG'' = None"
  by (simp add: table_of_def)

text \<open>
  C3, as the code has it. For every label that the classifier returns, the record
  has the label under \<open>kg_node\<close>, the label's category is one of the four, and
  \<open>kg_triple\<close> is the entry of the label in the module's table of that category when
  the table has the label, and \<open>None\<close> when it has not: a missing file gives an empty
  table, and with empty tables \<open>kg_triple\<close> is \<open>None\<close>. The module has tables for
  \<open>Maintenance_KG\<close>, \<open>Normal_KG\<close> and \<open>Cyberattack_KG\<close> only: for a \<open>PowerDraw_KG\<close>
  label no table is consulted and \<open>kg_triple\<close> is always \<open>None\<close>. Nothing is raised.
\<close>

theorem kg_triple_lookup:
  assumes "classify_state s m = Inr l"
  shows "send_to_KG tabs payload l ''kg_node'' = Some (Str l)
     \<and> category l \<in> set [''Maintenance_KG'', ''Normal_KG'', ''Cyberattack_KG'', ''PowerDraw_KG'']
     \<and> send_to_KG tabs payload l ''kg_triple''
         = Some (case table_of tabs (category l) of
                   None \<Rightarrow> VNone
                 | Some t \<Rightarrow> (case t l of None \<Rightarrow> VNone | Some row \<Rightarrow> row))
     \<and> (category l = ''PowerDraw_KG'' \<longrightarrow> send_to_KG tabs payload l ''kg_triple'' = Some VNone)
     \<and> load_kg_csv None = Inr Map.empty
     \<and> load_tables (\<lambda>path. None) = Inr empty_tables
     \<and> send_to_KG empty_tables payload l ''kg_triple'' = Some VNone"
proof -
  from assms have "l \<in> set labels" by (rule classify_in_labels)
  with labels_lookup[of tabs payload] have
    t: "send_to_KG tabs payload l ''kg_triple''
       = Some (case table_of tabs (category l) of None \<Rightarrow> VNone | Some t \<Rightarrow> get t l)"
    and c: "category l \<in> set [''Maintenance_KG'', ''Normal_KG'', ''Cyberattack_KG'', ''PowerDraw_KG'']"
    by blast+
  have p: "category l = ''PowerDraw_KG'' \<longrightarrow> send_to_KG tabs payload l ''kg_triple'' = Some VNone"
    unfolding t by (simp add: table_of_PowerDraw)
  have l: "load_kg_csv None = Inr Map.empty" by (simp add: load_kg_csv_def)
  from t have t': "send_to_KG tabs payload l ''kg_triple''
         = Some (case table_of tabs (category l) of
                   None \<Rightarrow> VNone
                 | Some t \<Rightarrow> (case t l of None \<Rightarrow> VNone | Some row \<Rightarrow> row))"
    by (simp only: get_def)
  have lt: "load_tables (\<lambda>path. None) = Inr empty_tables"
    by (simp add: load_tables_def load_kg_csv_def empty_tables_def)
  from \<open>l \<in> set labels\<close> labels_lookup[of empty_tables payload] have
    "send_to_KG empty_tables payload l ''kg_triple''
       = Some (case table_of empty_tables (category l) of None \<Rightarrow> VNone | Some t \<Rightarrow> get t l)"
    by blast
  also have "(case table_of empty_tables (category l) of None \<Rightarrow> VNone | Some t \<Rightarrow> get t l)
       = VNone"
    by (simp add: table_of_def empty_tables_def get_def)
  finally have e: "send_to_KG empty_tables payload l ''kg_triple'' = Some VNone" .
  show ?thesis
    by (intro conjI) (rule send_to_KG_frame(1) c t' p l lt e)+
qed

theorem kg_triple_lookup_witness:
  "classify_state nominal (with_tool 4) = Inr ''Maintenance_KG:Tool_Change''
   \<and> send_to_KG sample_tables Map.empty ''Maintenance_KG:Tool_Change'' ''kg_triple''
       = Some sample_row
   \<and> send_to_KG sample_tables Map.empty ''Maintenance_KG:Tool_Change'' ''kg_node''
       = Some (Str ''Maintenance_KG:Tool_Change'')"
proof -
  have h: "classify_state nominal (with_tool 4) = Inr ''Maintenance_KG:Tool_Change''"
    by (simp add: classify_state_wf nominal_simps with_tool_simps)
  from kg_triple_lookup [OF h, of sample_tables Map.empty] h show ?thesis
    by (simp add: table_of_def category_def sample_tables_def)
qed

text \<open>
  The claim fails for the fourth category: with a table for \<open>PowerDraw_KG\<close> that holds
  the label beside the module's three tables, the documented triple of
  \<open>PowerDraw_KG:High_Power_Consumption\<close> is the row of that table, but the record has
  \<open>None\<close>.
\<close>

theorem powerdraw_table_counterexample:
  "classify_state (readings 60 1 410 (50, 30, 10) ''PASS'') (with_tool 1)
     = Inr ''PowerDraw_KG:High_Power_Consumption''
   \<and> four_tables ''Maintenance_KG'' = maintenance_map sample_tables
   \<and> four_tables ''Normal_KG'' = normal_map sample_tables
   \<and> four_tables ''Cyberattack_KG'' = cyberattack_map sample_tables
   \<and> documented_triple four_tables ''PowerDraw_KG:High_Power_Consumption'' = sample_row
   \<and> sample_row \<noteq> VNone
   \<and> send_to_KG sample_tables Map.empty ''PowerDraw_KG:High_Power_Consumption'' ''kg_triple''
       = Some VNone"
  by (simp add: classify_state_wf well_formed_readings readings_in_range readings_simps
      with_tool_simps four_tables_def table_of_def documented_triple_def category_def get_def
      sample_row_def send_to_KG_def Let_def)

lemma perform_operation_dom:
  assumes "perform_operation mc cid g = Inr (r, m', g')"
  shows "dom r \<subseteq> machine_fields"
proof (cases mc)
  case (Machine n)
  with assms show ?thesis by simp
next
  case (CNCMill n a)
  with assms obtain op t where "r = [''operation'' \<mapsto> Str op, ''tool_id'' \<mapsto> Num (of_int t)]"
    by (auto simp add: bind_Inr_iff)
  then show ?thesis by (simp add: machine_fields_def)
next
  case (RoboticArm n)
  with assms obtain t where "r = [''robotic_arm_task'' \<mapsto> Str t]"
    by (auto simp add: bind_Inr_iff)
  then show ?thesis by (simp add: machine_fields_def)
next
  case (ConveyorBelt n)
  with assms obtain t p where "r = [''conveyor_position'' \<mapsto> Str t, ''part_id'' \<mapsto> Str p]"
    by (auto simp add: bind_Inr_iff Let_def)
  then show ?thesis by (simp add: machine_fields_def)
next
  case (InspectionSystem n)
  with assms obtain t c where
    "r = [''inspection_result'' \<mapsto> Str t, ''inspection_confidence'' \<mapsto> Num c]"
    by (auto simp add: bind_Inr_iff Let_def case_prod_beta)
  then show ?thesis by (simp add: machine_fields_def)
qed

lemma run_machines_dom:
  "run_machines ms cid md g = Inr (md', ms', g') \<Longrightarrow> dom md' \<subseteq> dom md \<union> machine_fields"
proof (induction ms arbitrary: md g md' ms' g')
  case Nil
  then show ?case by simp
next
  case (Cons mc ms)
  from Cons.prems obtain r m1 g1 md1 ms1 g2 where
    p: "perform_operation mc cid g = Inr (r, m1, g1)"
    and q: "run_machines ms cid (md ++ r) g1 = Inr (md1, ms1, g2)"
    and e: "md' = md1"
    by (auto simp add: bind_Inr_iff)
  from Cons.IH[OF q] have "dom md1 \<subseteq> dom (md ++ r) \<union> machine_fields" .
  then have "dom md1 \<subseteq> dom r \<union> dom md \<union> machine_fields" by simp
  with perform_operation_dom[OF p] show ?case unfolding e by blast
qed

lemma run_cycle_shape:
  assumes "run_cycle f tabs env now cid g = Inr out"
  shows "printed out = send_to_KG tabs (to_json (msg out)) (classification out)
         \<and> dom (machine_data (msg out)) \<subseteq> machine_fields"
proof -
  from assms obtain md ms' g1 where
    r: "run_machines (machines f) cid Map.empty g = Inr (md, ms', g1)"
    unfolding run_cycle_def by (cases "run_machines (machines f) cid Map.empty g") auto
  from run_machines_dom[OF r] have d: "dom md \<subseteq> machine_fields" by simp
  from assms have "printed out = send_to_KG tabs (to_json (msg out)) (classification out)
      \<and> machine_data (msg out) = md"
    unfolding run_cycle_def r bind.simps prod.case Let_def
    by (auto simp add: bind_Inr_iff)
  with d show ?thesis by simp
qed

lemma to_json_lookup:
  "to_json self k =
     (case sensor_readings self k of Some v \<Rightarrow> Some v
      | None \<Rightarrow> (case machine_data self k of Some v \<Rightarrow> Some v
          | None \<Rightarrow> [''cycle_id'' \<mapsto> Num (of_int (cycle_id self)),
                     ''timestamp'' \<mapsto> Num (timestamp self)] k))"
  by (simp add: to_json_def map_add_def split: option.splits)

lemma not_kg_key:
  assumes "k \<in> machine_fields \<or> k = ''cycle_id'' \<or> k = ''timestamp''"
  shows "k \<noteq> ''kg_node'' \<and> k \<noteq> ''kg_triple''"
proof -
  have "''kg_node'' \<notin> machine_fields \<and> ''kg_triple'' \<notin> machine_fields"
    by (simp add: machine_fields_def)
  moreover have "''kg_node'' \<noteq> ''cycle_id'' \<and> ''kg_node'' \<noteq> ''timestamp''
     \<and> ''kg_triple'' \<noteq> ''cycle_id'' \<and> ''kg_triple'' \<noteq> ''timestamp''" by simp
  ultimately show ?thesis using assms by metis
qed

text \<open>
  C10. The payload of \<open>to_json\<close> is written in the order \<open>cycle_id\<close>, \<open>timestamp\<close>,
  machine data, sensor readings, a later entry replacing an earlier one: a key of the
  sensor readings has the sensor's value, another key of the machine data has the
  machine's value, and any other key is \<open>cycle_id\<close> or \<open>timestamp\<close> or absent. In the
  record that a cycle prints, a sensor name that is also a machine field, \<open>cycle_id\<close>
  or \<open>timestamp\<close> has the sensor's value.
\<close>

theorem record_last_write_wins:
  "(sensor_readings self k = Some v \<longrightarrow> to_json self k = Some v)
   \<and> (sensor_readings self k = None \<and> machine_data self k = Some v \<longrightarrow> to_json self k = Some v)
   \<and> (sensor_readings self k = None \<and> machine_data self k = None \<longrightarrow>
        to_json self k = [''cycle_id'' \<mapsto> Num (of_int (cycle_id self)),
                          ''timestamp'' \<mapsto> Num (timestamp self)] k)
   \<and> (run_cycle f tabs env now cid g = Inr out \<and> sensor_readings (msg out) k = Some v
        \<and> (k \<in> dom (machine_data (msg out)) \<or> k = ''cycle_id'' \<or> k = ''timestamp'')
      \<longrightarrow> printed out k = Some v)"
proof (intro conjI impI)
  assume a: "run_cycle f tabs env now cid g = Inr out \<and> sensor_readings (msg out) k = Some v
        \<and> (k \<in> dom (machine_data (msg out)) \<or> k = ''cycle_id'' \<or> k = ''timestamp'')"
  then have r: "run_cycle f tabs env now cid g = Inr out" by simp
  from run_cycle_shape[OF r] have
    p: "printed out = send_to_KG tabs (to_json (msg out)) (classification out)"
    and d: "dom (machine_data (msg out)) \<subseteq> machine_fields" by simp_all
  from a d have "k \<in> machine_fields \<or> k = ''cycle_id'' \<or> k = ''timestamp''" by blast
  then have "k \<noteq> ''kg_node'' \<and> k \<noteq> ''kg_triple''" by (rule not_kg_key)
  then have "printed out k = to_json (msg out) k"
    unfolding p by (simp add: send_to_KG_frame)
  with a show "printed out k = Some v" by (simp add: to_json_lookup)
qed (simp_all add: to_json_lookup)

theorem record_last_write_wins_witness:
  "\<exists>out. run_cycle colliding_factory sample_tables None 0 1 no_entropy = Inr out
     \<and> sensor_readings (msg out) ''tool_id'' = Some (Str ''PASS'')
     \<and> machine_data (msg out) ''tool_id'' = Some (Num 1)
     \<and> to_json (msg out) ''tool_id'' = Some (Str ''PASS'')
     \<and> printed out ''tool_id'' = Some (Str ''PASS'')"
proof -
  from colliding_run obtain out where
    r: "run_cycle colliding_factory sample_tables None 0 1 no_entropy = Inr out"
    and s: "sensor_readings (msg out) ''tool_id'' = Some (Str ''PASS'')"
    and m: "machine_data (msg out) ''tool_id'' = Some (Num 1)" by (elim exE conjE)
  from m have d: "''tool_id'' \<in> dom (machine_data (msg out))" by (rule domI)
  from record_last_write_wins [of "msg out" "''tool_id''" "Str ''PASS''" colliding_factory sample_tables None 0 1
               no_entropy out] r s d
  have "to_json (msg out) ''tool_id'' = Some (Str ''PASS'')"
    and "printed out ''tool_id'' = Some (Str ''PASS'')" by simp_all
  with r s m show ?thesis by (intro exI[of _ out] conjI)
qed

end
